theory Spec2Isabelle
  imports Complex_Main "HOL-Library.Word" "HOL-Library.List_Lexorder"
begin

section \<open>JavaScript values\<close>

text \<open>
  A JavaScript string is a sequence of UTF-16 code units: \<open>length\<close> counts code units, and
  the default comparison of \<open>Array.prototype.sort\<close> is the lexicographic order of the code
  units, which is the order \<open>HOL-Library.List_Lexorder\<close> puts on lists.
\<close>

type_synonym jsstring = "16 word list"

definition str :: "string \<Rightarrow> jsstring" where
  "str s = map of_char s"

text \<open>
  Numbers are kept abstract enough to avoid floating point: the finite doubles are reals
  (both zeros are \<open>Finite 0\<close>, which \<open>===\<close>, truthiness and string conversion cannot tell
  apart). Option values are data: functions and symbols are not among them.
\<close>

datatype jsnum = NaN | PosInfinity | NegInfinity | Finite real

datatype jsval =
    JUndefined
  | JNull
  | JBool bool
  | JNum jsnum
  | JStr jsstring
  | JArr "jsval list"
  | JObj "(jsstring \<times> jsval) list"

text \<open>ToBoolean: the falsy values are undefined, null, false, 0, NaN and the empty string.\<close>

fun truthy :: "jsval \<Rightarrow> bool" where
  "truthy JUndefined = False"
| "truthy JNull = False"
| "truthy (JBool b) = b"
| "truthy (JNum n) = (n \<noteq> NaN \<and> n \<noteq> Finite 0)"
| "truthy (JStr s) = (s \<noteq> [])"
| "truthy (JArr xs) = True"
| "truthy (JObj kvs) = True"

text \<open>
  ToString, as a template literal applies it. The conversion of numbers, arrays and objects
  belongs to the runtime and is the parameter \<open>other\<close>.
\<close>

fun ToString :: "(jsval \<Rightarrow> jsstring) \<Rightarrow> jsval \<Rightarrow> jsstring" where
  "ToString other JUndefined = str ''undefined''"
| "ToString other JNull = str ''null''"
| "ToString other (JBool b) = (if b then str ''true'' else str ''false'')"
| "ToString other (JStr s) = s"
| "ToString other v = other v"

text \<open>Property read \<open>o.k\<close> on an object value: undefined when the property is absent.\<close>

definition get_prop :: "(jsstring \<times> jsval) list \<Rightarrow> jsstring \<Rightarrow> jsval" where
  "get_prop kvs k = (case map_of kvs k of None \<Rightarrow> JUndefined | Some v \<Rightarrow> v)"

text \<open>\<open>Object.assign({}, o, {k: v})\<close>: an existing key keeps its place, a new one goes last.\<close>

fun assign_prop :: "(jsstring \<times> jsval) list \<Rightarrow> jsstring \<Rightarrow> jsval \<Rightarrow> (jsstring \<times> jsval) list" where
  "assign_prop [] k v = [(k, v)]"
| "assign_prop ((k', v') # kvs) k v =
     (if k' = k then (k, v) # kvs else (k', v') # assign_prop kvs k v)"

text \<open>What a call throws: an \<open>Error\<close> with its message, or a TypeError of the runtime.\<close>

datatype error = Error jsstring | TypeError

section \<open>Descriptor strategies\<close>

record descriptor =
  key :: "jsstring \<Rightarrow> jsstring"
  val :: "jsval \<Rightarrow> jsstring"
  pair :: "jsstring \<times> jsval \<Rightarrow> jsstring"

definition cliDescriptor_key :: "jsstring \<Rightarrow> jsstring" where
  "cliDescriptor_key k = (if length k = 1 then str ''-'' @ k else str ''--'' @ k)"

definition cliDescriptor_pair :: "(jsval \<Rightarrow> jsstring) \<Rightarrow> jsstring \<times> jsval \<Rightarrow> jsstring" where
  "cliDescriptor_pair other kv =
     (case kv of (k, v) \<Rightarrow>
        if v = JBool False then str ''--no-'' @ k
        else if v = JBool True then cliDescriptor_key k
        else if v = JStr [] then cliDescriptor_key k @ str '' without an argument''
        else cliDescriptor_key k @ str ''='' @ ToString other v)"

text \<open>
  \<open>cliDescriptor\<close>; its \<open>value\<close> renderer is the one of the engine's \<open>apiDescriptor\<close>.
\<close>

definition cliDescriptor :: "descriptor \<Rightarrow> (jsval \<Rightarrow> jsstring) \<Rightarrow> descriptor" where
  "cliDescriptor apiDescriptor other =
     \<lparr> key = cliDescriptor_key,
       val = (\<lambda>v. val apiDescriptor v),
       pair = cliDescriptor_pair other \<rparr>"

section \<open>Flag schema\<close>

text \<open>
  The external collaborators of \<open>FlagSchema.preprocess\<close>: the distance function \<open>leven\<close>
  and the two colouring functions of \<open>chalk\<close>.
\<close>

record externals =
  leven :: "jsstring \<Rightarrow> jsstring \<Rightarrow> nat"
  chalk_yellow :: "jsstring \<Rightarrow> jsstring"
  chalk_blue :: "jsstring \<Rightarrow> jsstring"

text \<open>
  \<open>xs.indexOf(x)\<close>. HOL equality is strict equality whenever one side is a string, which
  is the case at both call sites.
\<close>

fun indexOf :: "'a list \<Rightarrow> 'a \<Rightarrow> int" where
  "indexOf [] x = - 1"
| "indexOf (y # ys) x =
     (if y = x then 0 else (let i = indexOf ys x in if i = - 1 then - 1 else i + 1))"

record flag_schema =
  fs_name :: jsstring
  fs_choices :: "jsstring list"
  fs_flags :: "jsstring list"

text \<open>
  The fields of a flag schema once its constructor has returned: \<open>choices\<close> as given to
  \<open>super\<close>, and \<open>this._flags = flags.slice().sort()\<close>. The constructor itself, with the
  call of \<open>super\<close> that may throw, is \<open>FlagSchema_constructor\<close> below.
\<close>

definition FlagSchema_new :: "jsstring \<Rightarrow> jsstring list \<Rightarrow> flag_schema" where
  "FlagSchema_new n flags = \<lparr> fs_name = n, fs_choices = flags, fs_flags = sort flags \<rparr>"

text \<open>The callback of \<open>this._flags.find\<close>.\<close>

definition close_match :: "externals \<Rightarrow> jsstring \<Rightarrow> jsstring \<Rightarrow> bool" where
  "close_match ext v flag = (leven ext flag v < 3)"

definition unknown_flag_message :: "externals \<Rightarrow> descriptor \<Rightarrow> jsval \<Rightarrow> jsstring \<Rightarrow> jsstring" where
  "unknown_flag_message ext d v suggestion =
     (str ''Unknown flag '' @ chalk_yellow ext (val d v) @ str '','')
       @ str '' '' @
     (str ''did you mean '' @ chalk_blue ext (val d (JStr suggestion)) @ str ''?'')"

text \<open>
  The \<open>utils\<close> argument, as far as \<open>preprocess\<close> reads it: whether \<open>utils.logger.warn\<close>
  is a function, and \<open>utils.descriptor\<close> (\<open>None\<close> when \<open>utils.descriptor.value\<close> is not a
  function). The engine supplies both; \<open>engine_utils\<close> is such a \<open>utils\<close>.
\<close>

record utils =
  u_logger_warn :: bool
  u_descriptor :: "descriptor option"

definition engine_utils :: "descriptor \<Rightarrow> utils" where
  "engine_utils d = \<lparr> u_logger_warn = True, u_descriptor = Some d \<rparr>"

text \<open>
  \<open>preprocess(value, utils)\<close>. The logger is the list of the messages given to
  \<open>utils.logger.warn\<close>, oldest first. The result is the returned value and the logger
  afterwards, or the TypeError of calling \<open>utils.logger.warn\<close> or \<open>utils.descriptor.value\<close>
  where it is not a function; a throw leaves the logger as it was.
\<close>

definition preprocess ::
  "externals \<Rightarrow> flag_schema \<Rightarrow> jsval \<Rightarrow> utils \<Rightarrow> jsstring list
     \<Rightarrow> error + jsval \<times> jsstring list" where
  "preprocess ext this v utils lg =
     (case v of
        JStr s \<Rightarrow>
          if length s \<noteq> 0 \<and> indexOf (fs_flags this) s = - 1 then
            (case find (close_match ext s) (fs_flags this) of
               None \<Rightarrow> Inr (v, lg)
             | Some suggestion \<Rightarrow>
                 if truthy (JStr suggestion)
                 then (case u_descriptor utils of
                         None \<Rightarrow> Inl TypeError
                       | Some d \<Rightarrow>
                           if u_logger_warn utils
                           then Inr (JStr suggestion,
                                     lg @ [unknown_flag_message ext d v suggestion])
                           else Inl TypeError)
                 else Inr (v, lg))
          else Inr (v, lg)
      | _ \<Rightarrow> Inr (v, lg))"

definition expected :: "flag_schema \<Rightarrow> jsstring" where
  "expected this = str ''a flag''"

section \<open>Schema builder\<close>

record redirect_info =
  redirect_option :: jsval
  redirect_value :: jsval

text \<open>
  An option descriptor. An absent property is \<open>None\<close> (or \<open>JUndefined\<close>); a property
  that is present has the type the data model gives it.
\<close>

record optionInfo =
  name :: jsstring
  type :: "jsstring option"
  array :: jsval
  alias' :: "jsstring option"
  choices :: "jsval list option"
  description :: "jsstring option"
  oppositeDescription :: "jsstring option"
  exception :: "(jsval \<Rightarrow> jsval) option"
  redirect :: "redirect_info option"
  deprecated :: jsval

text \<open>Truthiness of an optional string property.\<close>

definition declared :: "jsstring option \<Rightarrow> bool" where
  "declared p = (case p of None \<Rightarrow> False | Some s \<Rightarrow> truthy (JStr s))"

text \<open>
  The two preprocessing closures handed to the engine: \<open>value => Number(value)\<close> and
  \<open>v => [].concat(v)\<close>.
\<close>

datatype preprocessor = NumberPreprocess | ConcatPreprocess

definition concat_value :: "jsval \<Rightarrow> jsval" where
  "concat_value v = (case v of JArr xs \<Rightarrow> JArr xs | _ \<Rightarrow> JArr [v])"

text \<open>
  A validator takes the value and the schema's own \<open>validate\<close> (with \<open>utils\<close> supplied).
\<close>

type_synonym validator = "jsval \<Rightarrow> (jsval \<Rightarrow> jsval) \<Rightarrow> jsval"

record parameters =
  p_name :: jsstring
  p_preprocess :: "preprocessor option"
  p_choices :: "jsval list option"
  p_flags :: "jsstring list option"
  p_validate :: "validator option"

record handlers =
  h_redirect :: "(jsval \<Rightarrow> jsval) option"
  h_deprecated :: bool

datatype schema_constructor =
  IntegerSchema | ChoiceSchema | BooleanSchema | FlagSchema | StringSchema

text \<open>
  The schemas, as the arguments their \<open>create\<close> receives. \<open>Schema_create K p h\<close> is
  \<open>K.create(Object.assign({}, p, h))\<close>, and \<open>ArraySchema_create pre h s\<close> is
  \<open>ArraySchema.create(Object.assign(pre, h, { valueSchema: s }))\<close>.
\<close>

datatype schema =
    AnySchema_create jsstring
  | AliasSchema_create jsstring jsstring
  | Schema_create schema_constructor parameters handlers
  | ArraySchema_create "preprocessor option" handlers schema

definition no_handlers :: handlers where
  "no_handlers = \<lparr> h_redirect = None, h_deprecated = False \<rparr>"

text \<open>
  The engine's schema constructors are external and may throw on their arguments: the
  parameter \<open>ctor\<close> gives, for a constructor call, the error the engine throws there, if any.
\<close>

type_synonym constructors = "schema \<Rightarrow> error option"

text \<open>
  The constructor of \<open>FlagSchema\<close>: \<open>super({ name, choices: flags })\<close>, which is the
  engine's choice schema constructor, then \<open>this._flags = flags.slice().sort()\<close>, a
  TypeError when \<open>flags\<close> is undefined.
\<close>

definition FlagSchema_constructor ::
  "constructors \<Rightarrow> jsstring \<Rightarrow> jsstring list option \<Rightarrow> error + flag_schema" where
  "FlagSchema_constructor ctor n flags =
     (case ctor (Schema_create ChoiceSchema
                   \<lparr> p_name = n, p_preprocess = None,
                     p_choices = map_option (map JStr) flags, p_flags = None,
                     p_validate = None \<rparr> no_handlers) of
        Some e \<Rightarrow> Inl e
      | None \<Rightarrow> (case flags of None \<Rightarrow> Inl TypeError | Some fs \<Rightarrow> Inr (FlagSchema_new n fs)))"

text \<open>
  \<open>K.create(args)\<close>: the engine runs the constructor of \<open>K\<close> and attaches the handlers.
  For \<open>FlagSchema\<close> the constructor is the one above; the schema that comes back is
  represented by the call that made it.
\<close>

definition create :: "constructors \<Rightarrow> schema \<Rightarrow> error + schema" where
  "create ctor s =
     (case s of
        Schema_create FlagSchema p h \<Rightarrow>
          (case FlagSchema_constructor ctor (p_name p) (p_flags p) of
             Inl e \<Rightarrow> Inl e
           | Inr this \<Rightarrow> Inr s)
      | _ \<Rightarrow> (case ctor s of Some e \<Rightarrow> Inl e | None \<Rightarrow> Inr s))"

text \<open>
  The callback of \<open>optionInfo.choices.map\<close>. \<open>typeof null\<close> is \<open>object\<close>, and reading
  \<open>null.redirect\<close> is a TypeError; an array has no \<open>redirect\<close> property.
\<close>

fun rewrite_choice :: "jsstring \<Rightarrow> jsval \<Rightarrow> error + jsval" where
  "rewrite_choice n JNull = Inl TypeError"
| "rewrite_choice n (JObj kvs) =
     (if truthy (get_prop kvs (str ''redirect''))
      then Inr (JObj (assign_prop kvs (str ''redirect'')
             (JObj [(str ''to'',
                JObj [(str ''key'', JStr n), (str ''value'', get_prop kvs (str ''redirect''))])])))
      else Inr (JObj kvs))"
| "rewrite_choice n choiceInfo = Inr choiceInfo"

fun map_choices :: "jsstring \<Rightarrow> jsval list \<Rightarrow> error + jsval list" where
  "map_choices n [] = Inr []"
| "map_choices n (c # cs) =
     (case rewrite_choice n c of
        Inl e \<Rightarrow> Inl e
      | Inr c' \<Rightarrow> (case map_choices n cs of Inl e \<Rightarrow> Inl e | Inr cs' \<Rightarrow> Inr (c' # cs')))"

text \<open>The callback of \<open>optionInfos.map\<close> in the flag case: one descriptor's flag names.\<close>

definition flag_names :: "optionInfo \<Rightarrow> jsstring list" where
  "flag_names optionInfo =
     (case alias' optionInfo of
        None \<Rightarrow> []
      | Some a \<Rightarrow> if truthy (JStr a) then [a] else [])
     @ (if declared (description optionInfo) then [name optionInfo] else [])
     @ (if declared (oppositeDescription optionInfo) then [str ''no-'' @ name optionInfo] else [])"

definition collect_flags :: "optionInfo list \<Rightarrow> jsstring list" where
  "collect_flags optionInfos = foldl (\<lambda>a b. a @ b) [] (map flag_names optionInfos)"

text \<open>The \<open>switch\<close> on \<open>optionInfo.type\<close>: the constructor and the parameters so far.\<close>

definition switch_type ::
  "optionInfo \<Rightarrow> jsval \<Rightarrow> optionInfo list \<Rightarrow> parameters \<Rightarrow> error + schema_constructor \<times> parameters" where
  "switch_type optionInfo isCLI optionInfos ps =
     (if type optionInfo = Some (str ''int'') then
        Inr (IntegerSchema,
             if truthy isCLI then ps\<lparr>p_preprocess := Some NumberPreprocess\<rparr> else ps)
      else if type optionInfo = Some (str ''choice'') then
        (case choices optionInfo of
           None \<Rightarrow> Inl TypeError
         | Some cs \<Rightarrow>
             (case map_choices (name optionInfo) cs of
                Inl e \<Rightarrow> Inl e
              | Inr cs' \<Rightarrow> Inr (ChoiceSchema, ps\<lparr>p_choices := Some cs'\<rparr>)))
      else if type optionInfo = Some (str ''boolean'') then Inr (BooleanSchema, ps)
      else if type optionInfo = Some (str ''flag'') then
        Inr (FlagSchema, ps\<lparr>p_flags := Some (collect_flags optionInfos)\<rparr>)
      else if type optionInfo = Some (str ''path'') then Inr (StringSchema, ps)
      else Inl (Error (str ''Unexpected type '' @
             (case type optionInfo of None \<Rightarrow> str ''undefined'' | Some t \<Rightarrow> t))))"

definition effective_validate :: "optionInfo \<Rightarrow> validator" where
  "effective_validate optionInfo =
     (case exception optionInfo of
        Some f \<Rightarrow> (\<lambda>v schema_validate. if truthy (f v) then f v else schema_validate v)
      | None \<Rightarrow> (\<lambda>v schema_validate. if v = JUndefined then JBool True else schema_validate v))"

definition redirect_handler :: "redirect_info \<Rightarrow> jsval \<Rightarrow> jsval" where
  "redirect_handler r v =
     (if \<not> truthy v then JUndefined
      else JObj [(str ''to'',
             JObj [(str ''key'', redirect_option r), (str ''value'', redirect_value r)])])"

definition optionInfoToSchema ::
  "constructors \<Rightarrow> optionInfo \<Rightarrow> jsval \<Rightarrow> optionInfo list \<Rightarrow> error + schema" where
  "optionInfoToSchema ctor optionInfo isCLI optionInfos =
     (case switch_type optionInfo isCLI optionInfos
             \<lparr> p_name = name optionInfo, p_preprocess = None, p_choices = None,
               p_flags = None, p_validate = None \<rparr> of
        Inl e \<Rightarrow> Inl e
      | Inr (SchemaConstructor, ps) \<Rightarrow>
          (let params = ps\<lparr>p_validate := Some (effective_validate optionInfo)\<rparr>;
               hs = \<lparr> h_redirect = map_option redirect_handler (redirect optionInfo),
                      h_deprecated = truthy (deprecated optionInfo) \<rparr>
           in if truthy (array optionInfo)
              then (case create ctor (Schema_create SchemaConstructor params no_handlers) of
                      Inl e \<Rightarrow> Inl e
                    | Inr valueSchema \<Rightarrow>
                        create ctor
                          (ArraySchema_create
                             (if truthy isCLI then Some ConcatPreprocess else None) hs
                             valueSchema))
              else create ctor (Schema_create SchemaConstructor params hs)))"

text \<open>The loop of \<open>optionInfosToSchemas\<close>, with the schemas pushed so far.\<close>

fun push_schemas ::
  "constructors \<Rightarrow> optionInfo list \<Rightarrow> jsval \<Rightarrow> optionInfo list \<Rightarrow> schema list
     \<Rightarrow> error + schema list" where
  "push_schemas ctor [] isCLI optionInfos schemas = Inr schemas"
| "push_schemas ctor (optionInfo # rest) isCLI optionInfos schemas =
     (case optionInfoToSchema ctor optionInfo isCLI optionInfos of
        Inl e \<Rightarrow> Inl e
      | Inr s \<Rightarrow>
          (case alias' optionInfo of
             None \<Rightarrow> push_schemas ctor rest isCLI optionInfos (schemas @ [s])
           | Some a \<Rightarrow>
               if truthy (JStr a) \<and> truthy isCLI
               then (case create ctor (AliasSchema_create a (name optionInfo)) of
                       Inl e \<Rightarrow> Inl e
                     | Inr al \<Rightarrow>
                         push_schemas ctor rest isCLI optionInfos ((schemas @ [s]) @ [al]))
               else push_schemas ctor rest isCLI optionInfos (schemas @ [s])))"

definition optionInfosToSchemas ::
  "constructors \<Rightarrow> optionInfo list \<Rightarrow> jsval \<Rightarrow> error + schema list" where
  "optionInfosToSchemas ctor optionInfos isCLI =
     (if truthy isCLI
      then (case create ctor (AnySchema_create (str ''_'')) of
              Inl e \<Rightarrow> Inl e
            | Inr rest_args \<Rightarrow> push_schemas ctor optionInfos isCLI optionInfos [rest_args])
      else push_schemas ctor optionInfos isCLI optionInfos [])"

section \<open>Normalizer\<close>

type_synonym options = "(jsstring \<times> jsval) list"

text \<open>
  The unknown-key handler given to the engine: the engine's own \<open>levenUnknownHandler\<close>,
  or one of the two closures of \<open>normalizeOptions\<close>.
\<close>

datatype unknown_handler = LevenUnknownHandler | UnknownHandler "jsstring \<Rightarrow> jsval \<Rightarrow> jsval"

record 'l normalize_opts =
  n_logger :: "'l option"
  n_unknown :: unknown_handler
  n_descriptor :: descriptor

text \<open>
  The engine \<open>vnopts\<close> is external: its schema constructors, its \<open>normalize\<close> and its
  \<open>apiDescriptor\<close> are parameters, and what \<open>normalize\<close> returns (or throws) is the
  opaque \<open>'r\<close>.
\<close>

record ('l, 'r) vnopts =
  construct :: constructors
  normalize :: "options \<Rightarrow> schema list \<Rightarrow> 'l normalize_opts \<Rightarrow> 'r"
  apiDescriptor :: descriptor

text \<open>
  The settings object \<open>opts\<close>; \<open>None\<close> is a property the object does not have, which
  \<open>Object.assign\<close> tells apart from a property whose value is undefined.
\<close>

record 'l settings =
  logger :: "'l option"
  isCLI :: "jsval option"
  passThrough :: "jsval option"

text \<open>The destructuring default \<open>= false\<close>: taken when the property reads undefined.\<close>

definition default_false :: "jsval option \<Rightarrow> jsval" where
  "default_false p =
     (case p of None \<Rightarrow> JBool False | Some v \<Rightarrow> if v = JUndefined then JBool False else v)"

definition unknown_handler_of :: "jsval \<Rightarrow> unknown_handler" where
  "unknown_handler_of pt =
     (if \<not> truthy pt then LevenUnknownHandler
      else (case pt of
              JArr names \<Rightarrow>
                UnknownHandler (\<lambda>k v. if indexOf names (JStr k) = - 1 then JUndefined
                                       else JObj [(k, v)])
            | _ \<Rightarrow> UnknownHandler (\<lambda>k v. JObj [(k, v)])))"

definition normalizeOptions ::
  "('l, 'r) vnopts \<Rightarrow> (jsval \<Rightarrow> jsstring) \<Rightarrow> options \<Rightarrow> optionInfo list \<Rightarrow> 'l settings option
     \<Rightarrow> error + 'r" where
  "normalizeOptions vn other options optionInfos opts =
     (let s = (case opts of
                 None \<Rightarrow> \<lparr> logger = None, isCLI = None, passThrough = None \<rparr>
               | Some s \<Rightarrow> s);
          cli = default_false (isCLI s);
          pt = default_false (passThrough s);
          unknown = unknown_handler_of pt;
          d = (if truthy cli then cliDescriptor (apiDescriptor vn) other else apiDescriptor vn)
      in case optionInfosToSchemas (construct vn) optionInfos cli of
           Inl e \<Rightarrow> Inl e
         | Inr schemas \<Rightarrow>
             Inr (normalize vn options schemas
                    \<lparr> n_logger = logger s, n_unknown = unknown, n_descriptor = d \<rparr>))"

definition normalizeApiOptions ::
  "('l, 'r) vnopts \<Rightarrow> (jsval \<Rightarrow> jsstring) \<Rightarrow> options \<Rightarrow> optionInfo list \<Rightarrow> 'l settings option
     \<Rightarrow> error + 'r" where
  "normalizeApiOptions vn other options optionInfos opts =
     normalizeOptions vn other options optionInfos opts"

text \<open>\<open>Object.assign({ isCLI: true }, opts)\<close>: a property of \<open>opts\<close> replaces the default.\<close>

definition assign_isCLI_true :: "'l settings option \<Rightarrow> 'l settings" where
  "assign_isCLI_true opts =
     (case opts of
        None \<Rightarrow> \<lparr> logger = None, isCLI = Some (JBool True), passThrough = None \<rparr>
      | Some s \<Rightarrow>
          (case isCLI s of None \<Rightarrow> s\<lparr>isCLI := Some (JBool True)\<rparr> | Some v \<Rightarrow> s))"

definition normalizeCliOptions ::
  "('l, 'r) vnopts \<Rightarrow> (jsval \<Rightarrow> jsstring) \<Rightarrow> options \<Rightarrow> optionInfo list \<Rightarrow> 'l settings option
     \<Rightarrow> error + 'r" where
  "normalizeCliOptions vn other options optionInfos opts =
     normalizeOptions vn other options optionInfos (Some (assign_isCLI_true opts))"

section \<open>Reference instances of the collaborators\<close>

text \<open>
  An edit distance, standing for the \<open>leven\<close> package where an example needs a concrete
  distance, and collaborators that render a value by \<open>ToString\<close> and do not colour.
\<close>

fun edit_distance :: "jsstring \<Rightarrow> jsstring \<Rightarrow> nat" where
  "edit_distance [] ys = length ys"
| "edit_distance (x # xs) [] = Suc (length xs)"
| "edit_distance (x # xs) (y # ys) =
     (if x = y then edit_distance xs ys
      else Suc (min (edit_distance xs ys)
                 (min (edit_distance (x # xs) ys) (edit_distance xs (y # ys)))))"

definition plain_externals :: externals where
  "plain_externals = \<lparr> leven = edit_distance, chalk_yellow = (\<lambda>s. s), chalk_blue = (\<lambda>s. s) \<rparr>"

text \<open>
  Two instances of the engine's constructors: one that accepts every call, and one that
  rejects a repeated choice, as the engine's choice schema does.
\<close>

definition accept_all :: constructors where
  "accept_all s = None"

definition choice_value :: "jsval \<Rightarrow> jsval" where
  "choice_value c = (case c of JObj kvs \<Rightarrow> get_prop kvs (str ''value'') | _ \<Rightarrow> c)"

fun reject_duplicates :: constructors where
  "reject_duplicates (Schema_create K p h) =
     (case p_choices p of
        None \<Rightarrow> None
      | Some cs \<Rightarrow>
          if distinct (map choice_value cs) then None
          else Some (Error (str ''Duplicate value'')))"
| "reject_duplicates s = None"

definition plain_other :: "jsval \<Rightarrow> jsstring" where
  "plain_other v = str ''[object]''"

definition plain_descriptor :: descriptor where
  "plain_descriptor =
     \<lparr> key = (\<lambda>k. k), val = ToString plain_other,
       pair = (\<lambda>kv. fst kv @ str '': '' @ ToString plain_other (snd kv)) \<rparr>"

text \<open>A flag schema whose only known flag is the empty string.\<close>

definition empty_flag_schema :: flag_schema where
  "empty_flag_schema = FlagSchema_new (str ''flag'') [str '''']"

section \<open>Vocabulary of the properties\<close>

text \<open>The five recognized kinds of \<open>type\<close>.\<close>

definition recognized :: "jsstring option \<Rightarrow> bool" where
  "recognized t =
     (t = Some (str ''int'') \<or> t = Some (str ''choice'') \<or> t = Some (str ''boolean'')
      \<or> t = Some (str ''flag'') \<or> t = Some (str ''path''))"

text \<open>How a template literal prints \<open>optionInfo.type\<close>.\<close>

definition type_text :: "optionInfo \<Rightarrow> jsstring" where
  "type_text d = (case type d of None \<Rightarrow> str ''undefined'' | Some t \<Rightarrow> t)"

text \<open>A descriptor of the choice type carries a list of choices, none of them null.\<close>

definition choices_present :: "optionInfo \<Rightarrow> bool" where
  "choices_present d =
     (type d = Some (str ''choice'') \<longrightarrow>
        (case choices d of None \<Rightarrow> False | Some cs \<Rightarrow> JNull \<notin> set cs))"

text \<open>What reading a property gives: undefined when the object does not have it.\<close>

definition property :: "jsval option \<Rightarrow> jsval" where
  "property p = (case p of None \<Rightarrow> JUndefined | Some v \<Rightarrow> v)"

text \<open>What a built schema holds at its own level, and the schema of its elements.\<close>

fun own_validate :: "schema \<Rightarrow> validator option" where
  "own_validate (Schema_create K p h) = p_validate p"
| "own_validate s = None"

fun own_flags :: "schema \<Rightarrow> jsstring list option" where
  "own_flags (Schema_create K p h) = p_flags p"
| "own_flags s = None"

fun own_redirect :: "schema \<Rightarrow> (jsval \<Rightarrow> jsval) option" where
  "own_redirect (Schema_create K p h) = h_redirect h"
| "own_redirect (ArraySchema_create pre h s) = h_redirect h"
| "own_redirect s = None"

fun own_deprecated :: "schema \<Rightarrow> bool" where
  "own_deprecated (Schema_create K p h) = h_deprecated h"
| "own_deprecated (ArraySchema_create pre h s) = h_deprecated h"
| "own_deprecated s = False"

fun valueSchema :: "schema \<Rightarrow> schema option" where
  "valueSchema (ArraySchema_create pre h s) = Some s"
| "valueSchema s = None"

text \<open>The schema one value is checked against: the element schema of an array schema.\<close>

fun value_level :: "schema \<Rightarrow> schema" where
  "value_level (ArraySchema_create pre h s) = s"
| "value_level s = s"

text \<open>
  The flag universe in the words of the specification: for each descriptor of the list, in
  order, its alias when it has one, its name when it declares a description, and
  \<open>no-name\<close> when it declares an opposite description.
\<close>

fun flag_universe :: "optionInfo list \<Rightarrow> jsstring list" where
  "flag_universe [] = []"
| "flag_universe (d # ds) =
     (case alias' d of None \<Rightarrow> [] | Some a \<Rightarrow> if a = [] then [] else [a])
     @ (case description d of None \<Rightarrow> [] | Some t \<Rightarrow> if t = [] then [] else [name d])
     @ (case oppositeDescription d of
          None \<Rightarrow> [] | Some t \<Rightarrow> if t = [] then [] else [str ''no-'' @ name d])
     @ flag_universe ds"

text \<open>The schema built for a descriptor of the flag type carries the descriptor's name.\<close>

fun flag_schema_for :: "jsstring \<Rightarrow> schema \<Rightarrow> bool" where
  "flag_schema_for n (Schema_create K p h) = (K = FlagSchema \<and> p_name p = n)"
| "flag_schema_for n s = False"

section \<open>Example inputs\<close>

definition plain_option :: "jsstring \<Rightarrow> jsstring option \<Rightarrow> optionInfo" where
  "plain_option n t =
     \<lparr> name = n, type = t, array = JUndefined, alias' = None, choices = None,
       description = None, oppositeDescription = None, exception = None,
       redirect = None, deprecated = JUndefined \<rparr>"

text \<open>A descriptor of the choice type with no \<open>choices\<close> property.\<close>

definition bare_choice :: optionInfo where
  "bare_choice = plain_option (str ''mode'') (Some (str ''choice''))"

definition bad_type_option :: optionInfo where
  "bad_type_option = plain_option (str ''depth'') (Some (str ''float''))"

definition width_option :: optionInfo where
  "width_option = (plain_option (str ''width'') (Some (str ''int'')))\<lparr>alias' := Some (str ''w'')\<rparr>"

text \<open>
  An engine that answers with the number of schemas it was given, and one that answers with
  the options it was given.
\<close>

definition count_engine :: "(unit, nat) vnopts" where
  "count_engine =
     \<lparr> construct = reject_duplicates,
       normalize = (\<lambda>options schemas opts. length schemas),
       apiDescriptor = plain_descriptor \<rparr>"

definition echo_engine :: "(unit, unit normalize_opts) vnopts" where
  "echo_engine =
     \<lparr> construct = accept_all,
       normalize = (\<lambda>options schemas opts. opts),
       apiDescriptor = plain_descriptor \<rparr>"

definition cli_settings :: "jsval option \<Rightarrow> unit settings" where
  "cli_settings c = \<lparr> logger = None, isCLI = c, passThrough = None \<rparr>"

text \<open>The predicate \<open>v => v === "special"\<close>, and a schema validation that accepts nothing.\<close>

definition is_special :: "jsval \<Rightarrow> jsval" where
  "is_special v = JBool (v = JStr (str ''special''))"

definition accept_nothing :: "jsval \<Rightarrow> jsval" where
  "accept_nothing v = JBool False"

definition special_choice :: optionInfo where
  "special_choice =
     (plain_option (str ''mode'') (Some (str ''choice'')))
       \<lparr>choices := Some [JStr (str ''a'')], exception := Some is_special\<rparr>"

definition old_paths :: optionInfo where
  "old_paths =
     (plain_option (str ''files'') (Some (str ''path'')))
       \<lparr>array := JBool True, deprecated := JBool True,
        redirect := Some \<lparr> redirect_option = JStr (str ''input''), redirect_value = JBool True \<rparr>\<rparr>"

definition help_flag :: optionInfo where
  "help_flag =
     (plain_option (str ''help'') (Some (str ''flag'')))
       \<lparr>alias' := Some (str ''h''), description := Some (str ''Show help'')\<rparr>"

definition color_option :: optionInfo where
  "color_option =
     (plain_option (str ''color'') (Some (str ''boolean'')))
       \<lparr>description := Some (str ''Colorize''), oppositeDescription := Some (str ''Plain'')\<rparr>"

text \<open>A descriptor of the choice type that lists the same choice twice.\<close>

definition twin_choice :: optionInfo where
  "twin_choice =
     (plain_option (str ''mode'') (Some (str ''choice'')))
       \<lparr>choices := Some [JStr (str ''a''), JStr (str ''a'')]\<rparr>"

text \<open>A \<open>utils\<close> whose logger has no \<open>warn\<close>.\<close>

definition mute_utils :: utils where
  "mute_utils = \<lparr> u_logger_warn = False, u_descriptor = Some plain_descriptor \<rparr>"

definition foo_bar_schema :: flag_schema where
  "foo_bar_schema = FlagSchema_new (str ''flag'') [str ''foo'', str ''bar'']"

definition pass_foo :: "unit settings" where
  "pass_foo =
     \<lparr> logger = None, isCLI = None, passThrough = Some (JArr [JStr (str ''foo'')]) \<rparr>"

section \<open>Properties\<close>

subsection \<open>CLI descriptor strategy\<close>

text \<open>
  C8. For every key and value, the CLI strategy renders a key of length 1 as \<open>-key\<close> and
  any other key as \<open>--key\<close>; the pair with value false as \<open>--no-key\<close>; with value true
  as the rendered key; with the empty string as the rendered key followed by
  \<open> without an argument\<close>; and any other pair as the rendered key, \<open>=\<close> and the value
  converted to a string.
\<close>

theorem cliDescriptor_renders:
  "key (cliDescriptor api other) k = (if length k = 1 then str ''-'' @ k else str ''--'' @ k)
   \<and> pair (cliDescriptor api other) (k, JBool False) = str ''--no-'' @ k
   \<and> pair (cliDescriptor api other) (k, JBool True) = key (cliDescriptor api other) k
   \<and> pair (cliDescriptor api other) (k, JStr []) =
        key (cliDescriptor api other) k @ str '' without an argument''
   \<and> (v \<noteq> JBool False \<and> v \<noteq> JBool True \<and> v \<noteq> JStr [] \<longrightarrow>
        pair (cliDescriptor api other) (k, v) =
          key (cliDescriptor api other) k @ str ''='' @ ToString other v)"
  by (simp add: cliDescriptor_def cliDescriptor_key_def cliDescriptor_pair_def)

theorem cliDescriptor_renders_witness:
  "JStr (str ''y'') \<noteq> JBool False \<and> JStr (str ''y'') \<noteq> JBool True \<and> JStr (str ''y'') \<noteq> JStr []
   \<and> pair (cliDescriptor plain_descriptor plain_other) (str ''tab'', JStr (str ''y'')) = str ''--tab=y''
   \<and> key (cliDescriptor plain_descriptor plain_other) (str ''x'') = str ''-x''"
  using cliDescriptor_renders [of plain_descriptor plain_other "str ''tab''" "JStr (str ''y'')"]
    cliDescriptor_renders [of plain_descriptor plain_other "str ''x''" "JStr (str ''y'')"]
  by (simp add: str_def)

subsection \<open>Flag schema preprocessing\<close>

lemma indexOf_lower: "- 1 \<le> indexOf xs x"
  by (induction xs) (auto simp: Let_def)

lemma indexOf_absent: "indexOf xs x = - 1 \<longleftrightarrow> x \<notin> set xs"
proof (induction xs)
  case Nil
  show ?case by simp
next
  case (Cons y ys)
  have "indexOf ys x + 1 \<noteq> - 1"
    using indexOf_lower [of ys x] by arith
  with Cons show ?case by (auto simp: Let_def)
qed

lemma find_sorted_least:
  "sorted xs \<Longrightarrow> find P xs = Some g \<Longrightarrow> g \<in> set xs \<and> P g \<and> (\<forall>f\<in>set xs. P f \<longrightarrow> g \<le> f)"
proof (induction xs)
  case Nil
  then show ?case by simp
next
  case (Cons x xs)
  show ?case
  proof (cases "P x")
    case True
    with Cons.prems show ?thesis by auto
  next
    case False
    with Cons.prems have "find P xs = Some g" and "sorted xs" by auto
    with Cons.IH have "g \<in> set xs \<and> P g \<and> (\<forall>f\<in>set xs. P f \<longrightarrow> g \<le> f)" by blast
    with False show ?thesis by auto
  qed
qed

lemma find_some_close:
  "f \<in> set xs \<Longrightarrow> P f \<Longrightarrow> \<exists>g. find P xs = Some g"
  by (cases "find P xs") (auto simp: find_None_iff)

text \<open>
  C2, as the claim states it, fails where the first close flag in sorted order is the empty
  string: \<open>find\<close> returns it, the test \<open>if (suggestion)\<close> takes it for no match, and the
  value comes back unchanged with no warning.
\<close>

theorem preprocess_empty_suggestion_counterexample:
  "str ''a'' \<noteq> [] \<and> str ''a'' \<notin> set (fs_choices empty_flag_schema)
   \<and> str '''' \<in> set (fs_choices empty_flag_schema)
   \<and> leven plain_externals (str '''') (str ''a'') < 3
   \<and> find (close_match plain_externals (str ''a'')) (fs_flags empty_flag_schema) = Some (str '''')
   \<and> preprocess plain_externals empty_flag_schema (JStr (str ''a''))
         (engine_utils plain_descriptor) []
       = Inr (JStr (str ''a''), [])"
  by (simp add: empty_flag_schema_def FlagSchema_new_def plain_externals_def preprocess_def
      close_match_def str_def)

text \<open>
  C2, amended. For every flag universe and every value: if the value is a non-empty string
  that is not a known flag and some known flag has distance less than 3 from it, then
  \<open>find\<close> yields the least such flag in the sorted order, and, provided that flag is not the
  empty string, \<open>preprocess\<close> returns it and appends exactly one warning. If the value is
  not a string, or is the empty string, or is a known flag, or has no known flag at distance
  less than 3, \<open>preprocess\<close> returns it unchanged and warns nothing, whatever \<open>utils\<close> is.
\<close>

theorem preprocess_suggests:
  "(s \<noteq> [] \<and> s \<notin> set flags \<and> (\<exists>f\<in>set flags. leven ext f s < 3) \<longrightarrow>
      (\<exists>g. find (close_match ext s) (sort flags) = Some g
         \<and> g \<in> set flags \<and> leven ext g s < 3
         \<and> (\<forall>f\<in>set flags. leven ext f s < 3 \<longrightarrow> g \<le> f)
         \<and> (g \<noteq> [] \<longrightarrow>
              preprocess ext (FlagSchema_new n flags) (JStr s) (engine_utils d) lg
                = Inr (JStr g, lg @ [unknown_flag_message ext d (JStr s) g]))))
   \<and> ((\<forall>t. v \<noteq> JStr t) \<or> v = JStr [] \<or> (\<exists>t\<in>set flags. v = JStr t)
        \<or> (\<exists>t. v = JStr t \<and> (\<forall>f\<in>set flags. \<not> leven ext f t < 3)) \<longrightarrow>
      preprocess ext (FlagSchema_new n flags) v utils lg = Inr (v, lg))"
proof (intro conjI impI)
  assume a: "s \<noteq> [] \<and> s \<notin> set flags \<and> (\<exists>f\<in>set flags. leven ext f s < 3)"
  then obtain f where f: "f \<in> set (sort flags)" "close_match ext s f"
    by (auto simp: close_match_def)
  have "\<exists>g. find (close_match ext s) (sort flags) = Some g"
    using f by (rule find_some_close [where P = "close_match ext s"])
  then obtain g where g: "find (close_match ext s) (sort flags) = Some g" ..
  have srt: "sorted (sort flags)" by simp
  have least: "g \<in> set (sort flags) \<and> close_match ext s g
      \<and> (\<forall>f\<in>set (sort flags). close_match ext s f \<longrightarrow> g \<le> f)"
    by (rule find_sorted_least [OF srt g])
  have g_in: "g \<in> set flags" using least by simp
  have g_close: "leven ext g s < 3" using least by (simp add: close_match_def)
  have g_least: "\<forall>f\<in>set flags. leven ext f s < 3 \<longrightarrow> g \<le> f"
    using least by (simp add: close_match_def)
  have absent: "indexOf (sort flags) s = - 1"
    using a by (simp add: indexOf_absent)
  have pp: "g \<noteq> [] \<longrightarrow> preprocess ext (FlagSchema_new n flags) (JStr s) (engine_utils d) lg
                = Inr (JStr g, lg @ [unknown_flag_message ext d (JStr s) g])"
    using a g absent by (simp add: preprocess_def FlagSchema_new_def engine_utils_def)
  show "\<exists>g. find (close_match ext s) (sort flags) = Some g
         \<and> g \<in> set flags \<and> leven ext g s < 3
         \<and> (\<forall>f\<in>set flags. leven ext f s < 3 \<longrightarrow> g \<le> f)
         \<and> (g \<noteq> [] \<longrightarrow>
              preprocess ext (FlagSchema_new n flags) (JStr s) (engine_utils d) lg
                = Inr (JStr g, lg @ [unknown_flag_message ext d (JStr s) g]))"
    by (rule exI [of _ g]) (intro conjI g g_in g_close g_least pp)
next
  assume "(\<forall>t. v \<noteq> JStr t) \<or> v = JStr [] \<or> (\<exists>t\<in>set flags. v = JStr t)
        \<or> (\<exists>t. v = JStr t \<and> (\<forall>f\<in>set flags. \<not> leven ext f t < 3))"
  then consider (other) "\<forall>t. v \<noteq> JStr t" | (empty) "v = JStr []"
    | (known) t where "t \<in> set flags" "v = JStr t"
    | (far) t where "v = JStr t" "\<forall>f\<in>set flags. \<not> leven ext f t < 3"
    by blast
  then show "preprocess ext (FlagSchema_new n flags) v utils lg = Inr (v, lg)"
  proof cases
    case other
    then show ?thesis by (cases v) (simp_all add: preprocess_def)
  next
    case empty
    then show ?thesis by (simp add: preprocess_def)
  next
    case known
    then have "indexOf (sort flags) t \<noteq> - 1" by (simp add: indexOf_absent)
    with known show ?thesis by (simp add: preprocess_def FlagSchema_new_def)
  next
    case far
    then have "find (close_match ext t) (sort flags) = None"
      by (simp add: find_None_iff close_match_def)
    with far show ?thesis by (simp add: preprocess_def FlagSchema_new_def)
  qed
qed

theorem preprocess_suggests_witness:
  "str ''fooo'' \<noteq> [] \<and> str ''fooo'' \<notin> set [str ''foo'', str ''bar'']
   \<and> str ''foo'' \<in> set [str ''foo'', str ''bar'']
   \<and> leven plain_externals (str ''foo'') (str ''fooo'') < 3
   \<and> preprocess plain_externals (FlagSchema_new (str ''flag'') [str ''foo'', str ''bar''])
        (JStr (str ''fooo'')) (engine_utils plain_descriptor) []
       = Inr (JStr (str ''foo''), [str ''Unknown flag fooo, did you mean foo?''])
   \<and> preprocess plain_externals (FlagSchema_new (str ''flag'') [str ''foo'', str ''bar''])
        (JStr (str ''bar'')) mute_utils [] = Inr (JStr (str ''bar''), [])"
proof -
  have h: "str ''fooo'' \<noteq> [] \<and> str ''fooo'' \<notin> set [str ''foo'', str ''bar'']
     \<and> str ''foo'' \<in> set [str ''foo'', str ''bar'']
     \<and> leven plain_externals (str ''foo'') (str ''fooo'') < 3"
    by (simp add: str_def plain_externals_def)
  then have h': "str ''fooo'' \<noteq> [] \<and> str ''fooo'' \<notin> set [str ''foo'', str ''bar'']
     \<and> (\<exists>f\<in>set [str ''foo'', str ''bar'']. leven plain_externals f (str ''fooo'') < 3)"
    by blast
  have k: "(\<forall>t. JStr (str ''bar'') \<noteq> JStr t) \<or> JStr (str ''bar'') = JStr []
     \<or> (\<exists>t\<in>set [str ''foo'', str ''bar'']. JStr (str ''bar'') = JStr t)
     \<or> (\<exists>t. JStr (str ''bar'') = JStr t
           \<and> (\<forall>f\<in>set [str ''foo'', str ''bar'']. \<not> leven plain_externals f t < 3))"
    by simp
  note t = preprocess_suggests [where s = "str ''fooo''" and flags = "[str ''foo'', str ''bar'']"
      and ext = plain_externals and v = "JStr (str ''bar'')" and n = "str ''flag''"
      and d = plain_descriptor and lg = "[]" and utils = mute_utils]
  from t h' obtain g where
    g: "find (close_match plain_externals (str ''fooo'')) (sort [str ''foo'', str ''bar'']) = Some g"
    and p: "g \<noteq> [] \<longrightarrow>
      preprocess plain_externals (FlagSchema_new (str ''flag'') [str ''foo'', str ''bar''])
        (JStr (str ''fooo'')) (engine_utils plain_descriptor) []
      = Inr (JStr g, [] @ [unknown_flag_message plain_externals plain_descriptor (JStr (str ''fooo'')) g])"
    by blast
  have "find (close_match plain_externals (str ''fooo'')) (sort [str ''foo'', str ''bar''])
      = Some (str ''foo'')"
    by code_simp
  with g have "g = str ''foo''" by simp
  moreover have "str ''foo'' \<noteq> []" by (simp add: str_def)
  moreover have "unknown_flag_message plain_externals plain_descriptor (JStr (str ''fooo'')) (str ''foo'')
      = str ''Unknown flag fooo, did you mean foo?''"
    by code_simp
  ultimately have first:
    "preprocess plain_externals (FlagSchema_new (str ''flag'') [str ''foo'', str ''bar''])
        (JStr (str ''fooo'')) (engine_utils plain_descriptor) []
       = Inr (JStr (str ''foo''), [str ''Unknown flag fooo, did you mean foo?''])"
    using p by simp
  from t k have second:
    "preprocess plain_externals (FlagSchema_new (str ''flag'') [str ''foo'', str ''bar''])
        (JStr (str ''bar'')) mute_utils [] = Inr (JStr (str ''bar''), [])"
    by blast
  from h first second show ?thesis by blast
qed

text \<open>
  C9, as the claim states it, fails for a \<open>utils\<close> whose logger has no \<open>warn\<close> (or whose
  descriptor has no \<open>value\<close>): once a close flag is found, \<open>utils.logger.warn\<close> and
  \<open>utils.descriptor.value\<close> are called unguarded, and the call is a TypeError.
\<close>

theorem preprocess_throws_counterexample:
  "preprocess plain_externals foo_bar_schema (JStr (str ''fooo'')) mute_utils [] = Inl TypeError"
  by code_simp

text \<open>
  C9, amended. For every value and every \<open>utils\<close> whose \<open>logger.warn\<close> and
  \<open>descriptor.value\<close> are functions, \<open>preprocess\<close> does not throw: it returns a value and a
  logger. Either the value is returned as it is and the logger is untouched, or the value is
  an unknown string, a known flag at distance less than 3 takes its place, and the logger
  has received the one warning about that substitution.
\<close>

theorem preprocess_effects:
  assumes "u_logger_warn utils" and "u_descriptor utils = Some d"
  shows "\<exists>r lg'. preprocess ext this v utils lg = Inr (r, lg')
     \<and> ((r = v \<and> lg' = lg)
        \<or> (\<exists>s g. v = JStr s \<and> s \<notin> set (fs_flags this) \<and> g \<in> set (fs_flags this)
              \<and> leven ext g s < 3 \<and> r = JStr g
              \<and> lg' = lg @ [unknown_flag_message ext d v g]))"
proof (cases v)
  case (JStr s)
  show ?thesis
  proof (cases "find (close_match ext s) (fs_flags this)")
    case None
    with JStr show ?thesis by (simp add: preprocess_def)
  next
    case (Some g)
    then have "g \<in> set (fs_flags this) \<and> close_match ext s g"
      by (auto simp: find_Some_iff)
    with JStr Some assms show ?thesis
      by (simp add: preprocess_def indexOf_absent close_match_def)
  qed
qed (simp_all add: preprocess_def)

theorem preprocess_effects_witness:
  "u_logger_warn (engine_utils plain_descriptor)
   \<and> u_descriptor (engine_utils plain_descriptor) = Some plain_descriptor
   \<and> (\<exists>r lg'. preprocess plain_externals foo_bar_schema (JStr (str ''fooo''))
         (engine_utils plain_descriptor) [] = Inr (r, lg'))"
proof -
  have w: "u_logger_warn (engine_utils plain_descriptor)"
    by (simp add: engine_utils_def)
  have d: "u_descriptor (engine_utils plain_descriptor) = Some plain_descriptor"
    by (simp add: engine_utils_def)
  from preprocess_effects [OF w d, of plain_externals foo_bar_schema "JStr (str ''fooo'')" "[]"]
  have "\<exists>r lg'. preprocess plain_externals foo_bar_schema (JStr (str ''fooo''))
         (engine_utils plain_descriptor) [] = Inr (r, lg')"
    by blast
  with w d show ?thesis by blast
qed

subsection \<open>Schema construction and the recognized types\<close>

lemma create_result: "create ctor s = Inr s' \<Longrightarrow> s' = s"
  by (auto simp: create_def split: schema.splits schema_constructor.splits sum.splits
      option.splits)

lemma create_any: "create ctor (AnySchema_create n) = Inl e \<Longrightarrow> ctor (AnySchema_create n) = Some e"
  by (simp add: create_def split: option.splits)

lemma create_alias:
  "create ctor (AliasSchema_create a n) = Inl e \<Longrightarrow> ctor (AliasSchema_create a n) = Some e"
  by (simp add: create_def split: option.splits)

lemma create_array:
  "create ctor (ArraySchema_create pre h vs) = Inl e \<Longrightarrow>
     ctor (ArraySchema_create pre h vs) = Some e"
  by (simp add: create_def split: option.splits)

lemma create_value:
  assumes "create ctor (Schema_create K p h) = Inl e"
    and "K = FlagSchema \<longrightarrow> p_flags p \<noteq> None"
  shows "\<exists>s. ctor s = Some e"
proof (cases K)
  case FlagSchema
  with assms obtain fs where "p_flags p = Some fs" by auto
  with assms(1) FlagSchema show ?thesis
    by (auto simp: create_def FlagSchema_constructor_def split: option.splits)
qed (use assms(1) in \<open>auto simp: create_def split: option.splits\<close>)

lemma rewrite_choice_ok: "c \<noteq> JNull \<Longrightarrow> \<exists>c'. rewrite_choice n c = Inr c'"
  by (cases c) simp_all

lemma map_choices_ok: "JNull \<notin> set cs \<Longrightarrow> \<exists>cs'. map_choices n cs = Inr cs'"
proof (induction cs)
  case Nil
  show ?case by simp
next
  case (Cons c cs)
  then obtain cs' where cs': "map_choices n cs = Inr cs'" by auto
  from Cons.prems have "c \<noteq> JNull" by auto
  then obtain c' where "rewrite_choice n c = Inr c'"
    using rewrite_choice_ok [of c n] by blast
  with cs' show ?case by simp
qed

lemma switch_type_ok:
  assumes "recognized (type d)" and "choices_present d"
  shows "\<exists>K ps'. switch_type d cli ds ps = Inr (K, ps')"
proof (cases "type d = Some (str ''choice'')")
  case True
  with assms(2) obtain cs where cs: "choices d = Some cs" "JNull \<notin> set cs"
    by (auto simp: choices_present_def split: option.splits)
  then obtain cs' where "map_choices (name d) cs = Inr cs'"
    using map_choices_ok [of cs "name d"] by blast
  with True cs show ?thesis by (simp add: switch_type_def str_def)
next
  case False
  with assms(1) show ?thesis
    by (auto simp: switch_type_def recognized_def)
qed

lemma switch_type_flag:
  "switch_type d cli ds ps = Inr (FlagSchema, ps') \<Longrightarrow>
     type d = Some (str ''flag'') \<and> ps' = ps\<lparr>p_flags := Some (collect_flags ds)\<rparr>"
  by (auto simp: switch_type_def split: if_splits option.splits sum.splits)

lemma switch_type_of_flag:
  "type d = Some (str ''flag'') \<Longrightarrow>
     switch_type d cli ds ps = Inr (FlagSchema, ps\<lparr>p_flags := Some (collect_flags ds)\<rparr>)"
  by (simp add: switch_type_def str_def)

lemma optionInfoToSchema_error:
  assumes "recognized (type d)" and "choices_present d"
    and "optionInfoToSchema ctor d cli ds = Inl e"
  shows "\<exists>s. ctor s = Some e"
proof -
  obtain K ps where sw:
    "switch_type d cli ds \<lparr> p_name = name d, p_preprocess = None, p_choices = None,
               p_flags = None, p_validate = None \<rparr> = Inr (K, ps)"
    using switch_type_ok [OF assms(1,2)] by blast
  have fl: "K = FlagSchema \<longrightarrow> p_flags (ps\<lparr>p_validate := Some (effective_validate d)\<rparr>) \<noteq> None"
  proof
    assume "K = FlagSchema"
    with sw have sw': "switch_type d cli ds \<lparr> p_name = name d, p_preprocess = None,
        p_choices = None, p_flags = None, p_validate = None \<rparr> = Inr (FlagSchema, ps)"
      by simp
    have "ps = \<lparr> p_name = name d, p_preprocess = None, p_choices = None,
               p_flags = None, p_validate = None \<rparr>\<lparr>p_flags := Some (collect_flags ds)\<rparr>"
      using switch_type_flag [OF sw'] by simp
    then show "p_flags (ps\<lparr>p_validate := Some (effective_validate d)\<rparr>) \<noteq> None"
      by simp
  qed
  show ?thesis
  proof (cases "truthy (array d)")
    case False
    with assms(3) sw have "create ctor (Schema_create K
        (ps\<lparr>p_validate := Some (effective_validate d)\<rparr>)
        \<lparr> h_redirect = map_option redirect_handler (redirect d),
          h_deprecated = truthy (deprecated d) \<rparr>) = Inl e"
      by (simp add: optionInfoToSchema_def Let_def)
    then show ?thesis using fl by (rule create_value)
  next
    case True
    show ?thesis
    proof (cases "create ctor (Schema_create K
        (ps\<lparr>p_validate := Some (effective_validate d)\<rparr>) no_handlers)")
      case (Inl e')
      with assms(3) sw True have "e' = e" by (simp add: optionInfoToSchema_def Let_def)
      with Inl have "create ctor (Schema_create K
        (ps\<lparr>p_validate := Some (effective_validate d)\<rparr>) no_handlers) = Inl e"
        by simp
      then show ?thesis using fl by (rule create_value)
    next
      case (Inr vs)
      with assms(3) sw True have "create ctor (ArraySchema_create
          (if truthy cli then Some ConcatPreprocess else None)
          \<lparr> h_redirect = map_option redirect_handler (redirect d),
            h_deprecated = truthy (deprecated d) \<rparr> vs) = Inl e"
        by (simp add: optionInfoToSchema_def Let_def)
      then have "ctor (ArraySchema_create
          (if truthy cli then Some ConcatPreprocess else None)
          \<lparr> h_redirect = map_option redirect_handler (redirect d),
            h_deprecated = truthy (deprecated d) \<rparr> vs) = Some e"
        by (rule create_array)
      then show ?thesis by (rule exI)
    qed
  qed
qed

lemma switch_type_unrecognized:
  "\<not> recognized (type d) \<Longrightarrow>
     switch_type d cli ds ps = Inl (Error (str ''Unexpected type '' @ type_text d))"
  by (simp add: switch_type_def recognized_def type_text_def)

lemma optionInfoToSchema_unrecognized:
  "\<not> recognized (type d) \<Longrightarrow>
     optionInfoToSchema ctor d cli ds = Inl (Error (str ''Unexpected type '' @ type_text d))"
  by (simp add: optionInfoToSchema_def switch_type_unrecognized)

lemma push_schemas_error:
  "\<forall>d\<in>set ds. recognized (type d) \<and> choices_present d \<Longrightarrow>
     push_schemas ctor ds cli optionInfos acc = Inl e \<Longrightarrow> \<exists>s. ctor s = Some e"
proof (induction ds arbitrary: acc)
  case Nil
  then show ?case by simp
next
  case (Cons d ds)
  have ok: "recognized (type d)" "choices_present d" using Cons.prems(1) by simp_all
  have rest: "\<forall>d\<in>set ds. recognized (type d) \<and> choices_present d"
    using Cons.prems(1) by simp
  show ?case
  proof (cases "optionInfoToSchema ctor d cli optionInfos")
    case (Inl e')
    with Cons.prems(2) have "e' = e" by simp
    with Inl have "optionInfoToSchema ctor d cli optionInfos = Inl e" by simp
    then show ?thesis by (rule optionInfoToSchema_error [OF ok])
  next
    case (Inr s)
    show ?thesis
    proof (cases "\<exists>a. alias' d = Some a \<and> truthy (JStr a) \<and> truthy cli")
      case False
      with Inr Cons.prems(2) have "push_schemas ctor ds cli optionInfos (acc @ [s]) = Inl e"
        by (auto split: option.splits if_splits)
      then show ?thesis by (rule Cons.IH [OF rest])
    next
      case True
      then obtain a where a: "alias' d = Some a" "truthy (JStr a)" "truthy cli" by blast
      show ?thesis
      proof (cases "create ctor (AliasSchema_create a (name d))")
        case (Inl e')
        with Inr a Cons.prems(2) have "e' = e" by simp
        with Inl have "ctor (AliasSchema_create a (name d)) = Some e"
          using create_alias [of ctor a "name d" e] by simp
        then show ?thesis by (rule exI)
      next
        case (Inr al)
        with \<open>optionInfoToSchema ctor d cli optionInfos = Inr s\<close> a Cons.prems(2)
        have "push_schemas ctor ds cli optionInfos ((acc @ [s]) @ [al]) = Inl e" by simp
        then show ?thesis by (rule Cons.IH [OF rest])
      qed
    qed
  qed
qed

lemma push_schemas_unrecognized:
  "\<forall>p\<in>set pre. recognized (type p) \<and> choices_present p \<Longrightarrow> \<not> recognized (type d) \<Longrightarrow>
     \<exists>e. push_schemas ctor (pre @ d # post) cli optionInfos acc = Inl e
        \<and> (e = Error (str ''Unexpected type '' @ type_text d) \<or> (\<exists>s. ctor s = Some e))"
proof (induction pre arbitrary: acc)
  case Nil
  then show ?case by (simp add: optionInfoToSchema_unrecognized)
next
  case (Cons x pre)
  have ok: "recognized (type x)" "choices_present x" using Cons.prems(1) by simp_all
  have rest: "\<forall>p\<in>set pre. recognized (type p) \<and> choices_present p"
    using Cons.prems(1) by simp
  note IH = Cons.IH [OF rest Cons.prems(2)]
  show ?case
  proof (cases "optionInfoToSchema ctor x cli optionInfos")
    case (Inl e)
    then have "push_schemas ctor ((x # pre) @ d # post) cli optionInfos acc = Inl e" by simp
    moreover have "\<exists>s. ctor s = Some e" by (rule optionInfoToSchema_error [OF ok Inl])
    ultimately show ?thesis by (intro exI [of _ e] conjI disjI2)
  next
    case (Inr s)
    show ?thesis
    proof (cases "\<exists>a. alias' x = Some a \<and> truthy (JStr a) \<and> truthy cli")
      case False
      with Inr have "push_schemas ctor ((x # pre) @ d # post) cli optionInfos acc
          = push_schemas ctor (pre @ d # post) cli optionInfos (acc @ [s])"
        by (auto split: option.splits)
      then show ?thesis using IH [of "acc @ [s]"] by simp
    next
      case True
      then obtain a where a: "alias' x = Some a" "truthy (JStr a)" "truthy cli" by blast
      show ?thesis
      proof (cases "create ctor (AliasSchema_create a (name x))")
        case (Inl e)
        with \<open>optionInfoToSchema ctor x cli optionInfos = Inr s\<close> a
        have "push_schemas ctor ((x # pre) @ d # post) cli optionInfos acc = Inl e" by simp
        moreover have "\<exists>s. ctor s = Some e" using create_alias [OF Inl] by (rule exI)
        ultimately show ?thesis by (intro exI [of _ e] conjI disjI2)
      next
        case (Inr al)
        with \<open>optionInfoToSchema ctor x cli optionInfos = Inr s\<close> a
        have "push_schemas ctor ((x # pre) @ d # post) cli optionInfos acc
            = push_schemas ctor (pre @ d # post) cli optionInfos ((acc @ [s]) @ [al])"
          by simp
        then show ?thesis using IH [of "(acc @ [s]) @ [al]"] by simp
      qed
    qed
  qed
qed

lemma optionInfosToSchemas_error:
  assumes "\<forall>d\<in>set ds. recognized (type d) \<and> choices_present d"
    and "optionInfosToSchemas ctor ds cli = Inl e"
  shows "\<exists>s. ctor s = Some e"
proof (cases "truthy cli")
  case False
  with assms(2) have "push_schemas ctor ds cli ds [] = Inl e"
    by (simp add: optionInfosToSchemas_def)
  then show ?thesis by (rule push_schemas_error [OF assms(1)])
next
  case True
  show ?thesis
  proof (cases "create ctor (AnySchema_create (str ''_''))")
    case (Inl e')
    with assms(2) True have "e' = e" by (simp add: optionInfosToSchemas_def)
    with Inl have "ctor (AnySchema_create (str ''_'')) = Some e"
      using create_any [of ctor "str ''_''" e] by simp
    then show ?thesis by (rule exI)
  next
    case (Inr r)
    with assms(2) True have "push_schemas ctor ds cli ds [r] = Inl e"
      by (simp add: optionInfosToSchemas_def)
    then show ?thesis by (rule push_schemas_error [OF assms(1)])
  qed
qed

lemma optionInfosToSchemas_unrecognized:
  assumes "\<forall>p\<in>set pre. recognized (type p) \<and> choices_present p" and "\<not> recognized (type d)"
  shows "\<exists>e. optionInfosToSchemas ctor (pre @ d # post) cli = Inl e
        \<and> (e = Error (str ''Unexpected type '' @ type_text d) \<or> (\<exists>s. ctor s = Some e))"
proof (cases "truthy cli")
  case False
  then show ?thesis
    using push_schemas_unrecognized [OF assms, of ctor post cli "pre @ d # post" "[]"]
    by (simp add: optionInfosToSchemas_def)
next
  case True
  show ?thesis
  proof (cases "create ctor (AnySchema_create (str ''_''))")
    case (Inl e)
    with True have "optionInfosToSchemas ctor (pre @ d # post) cli = Inl e"
      by (simp add: optionInfosToSchemas_def)
    moreover have "\<exists>s. ctor s = Some e" using create_any [OF Inl] by (rule exI)
    ultimately show ?thesis by (intro exI [of _ e] conjI disjI2)
  next
    case (Inr r)
    with True show ?thesis
      using push_schemas_unrecognized [OF assms, of ctor post cli "pre @ d # post" "[r]"]
      by (simp add: optionInfosToSchemas_def)
  qed
qed

lemma normalizeOptions_throws:
  "optionInfosToSchemas (construct vn) ds c = Inl e \<Longrightarrow>
     c = default_false (isCLI (case opts of
           None \<Rightarrow> \<lparr> logger = None, isCLI = None, passThrough = None \<rparr> | Some s \<Rightarrow> s)) \<Longrightarrow>
     normalizeOptions vn other options ds opts = Inl e"
  by (simp add: normalizeOptions_def Let_def)

text \<open>
  C1, as the claim states it, fails for descriptors whose type is a recognized one: a
  descriptor of the choice type with no \<open>choices\<close> makes \<open>optionInfo.choices.map\<close> a
  TypeError, and one that lists a choice twice is refused by an engine whose choice schema
  rejects a repeated value.
\<close>

theorem bare_choice_throws_counterexample:
  "recognized (type bare_choice)
   \<and> optionInfosToSchemas reject_duplicates [bare_choice] (JBool False) = Inl TypeError
   \<and> recognized (type twin_choice)
   \<and> optionInfosToSchemas reject_duplicates [twin_choice] (JBool False)
       = Inl (Error (str ''Duplicate value''))"
  by (simp add: bare_choice_def twin_choice_def plain_option_def recognized_def
      optionInfosToSchemas_def optionInfoToSchema_def switch_type_def create_def
      choice_value_def str_def)

text \<open>
  C1, amended. For every descriptor list: if every \<open>type\<close> is one of the five recognized
  kinds and every descriptor of the choice type carries a list of choices with no null
  entry, schema construction throws nothing of its own: it returns the schemas unless a
  schema constructor of the engine throws. If some descriptor has another \<open>type\<close> and
  the descriptors before the first such one are as above, then schema construction
  throws, and so does \<open>normalizeOptions\<close> whatever the raw options are, the engine's
  \<open>normalize\<close> not being reached: the error is \<open>Unexpected type t\<close> for the type \<open>t\<close> of
  that descriptor, unless a schema constructor of the engine has thrown before.
\<close>

theorem schema_construction_throws:
  "((\<forall>d\<in>set optionInfos. recognized (type d) \<and> choices_present d) \<longrightarrow>
      (\<exists>schemas. optionInfosToSchemas (construct vn) optionInfos cli = Inr schemas)
      \<or> (\<exists>e s. optionInfosToSchemas (construct vn) optionInfos cli = Inl e
             \<and> construct vn s = Some e))
   \<and> (optionInfos = pre @ d # post
        \<and> (\<forall>p\<in>set pre. recognized (type p) \<and> choices_present p)
        \<and> \<not> recognized (type d) \<longrightarrow>
      (\<exists>e. optionInfosToSchemas (construct vn) optionInfos cli = Inl e
          \<and> (e = Error (str ''Unexpected type '' @ type_text d)
               \<or> (\<exists>s. construct vn s = Some e)))
      \<and> (\<exists>e. normalizeOptions vn other options optionInfos opts = Inl e
          \<and> (e = Error (str ''Unexpected type '' @ type_text d)
               \<or> (\<exists>s. construct vn s = Some e))))"
proof (intro conjI impI)
  assume ok: "\<forall>d\<in>set optionInfos. recognized (type d) \<and> choices_present d"
  show "(\<exists>schemas. optionInfosToSchemas (construct vn) optionInfos cli = Inr schemas)
      \<or> (\<exists>e s. optionInfosToSchemas (construct vn) optionInfos cli = Inl e
             \<and> construct vn s = Some e)"
  proof (cases "optionInfosToSchemas (construct vn) optionInfos cli")
    case (Inl e)
    then show ?thesis using optionInfosToSchemas_error [OF ok Inl] by blast
  next
    case (Inr schemas)
    then show ?thesis by blast
  qed
next
  assume a: "optionInfos = pre @ d # post
        \<and> (\<forall>p\<in>set pre. recognized (type p) \<and> choices_present p)
        \<and> \<not> recognized (type d)"
  then have pre: "\<forall>p\<in>set pre. recognized (type p) \<and> choices_present p"
    and d: "\<not> recognized (type d)" and l: "optionInfos = pre @ d # post"
    by simp_all
  have thrown: "\<exists>e. optionInfosToSchemas (construct vn) optionInfos c = Inl e
          \<and> (e = Error (str ''Unexpected type '' @ type_text d)
               \<or> (\<exists>s. construct vn s = Some e))" for c
    unfolding l by (rule optionInfosToSchemas_unrecognized [OF pre d])
  show "\<exists>e. optionInfosToSchemas (construct vn) optionInfos cli = Inl e
          \<and> (e = Error (str ''Unexpected type '' @ type_text d)
               \<or> (\<exists>s. construct vn s = Some e))"
    by (rule thrown)
  obtain e where e: "optionInfosToSchemas (construct vn) optionInfos
      (default_false (isCLI (case opts of
           None \<Rightarrow> \<lparr> logger = None, isCLI = None, passThrough = None \<rparr> | Some s \<Rightarrow> s))) = Inl e"
    and w: "e = Error (str ''Unexpected type '' @ type_text d) \<or> (\<exists>s. construct vn s = Some e)"
    using thrown by blast
  have "normalizeOptions vn other options optionInfos opts = Inl e"
    using e by (rule normalizeOptions_throws) simp
  with w show "\<exists>e. normalizeOptions vn other options optionInfos opts = Inl e
          \<and> (e = Error (str ''Unexpected type '' @ type_text d)
               \<or> (\<exists>s. construct vn s = Some e))"
    by blast
qed

theorem schema_construction_throws_witness:
  "(\<exists>schemas. optionInfosToSchemas (construct echo_engine) [width_option] (JBool True)
       = Inr schemas)
   \<and> normalizeOptions echo_engine plain_other [] [width_option, bad_type_option] None
       = Inl (Error (str ''Unexpected type float''))"
proof -
  have quiet: "construct echo_engine s \<noteq> Some e" for s e
    by (simp add: echo_engine_def accept_all_def)
  have ok: "\<forall>d\<in>set [width_option]. recognized (type d) \<and> choices_present d"
    by (simp add: recognized_def choices_present_def width_option_def plain_option_def str_def)
  have bad: "[width_option, bad_type_option] = [width_option] @ bad_type_option # []
      \<and> (\<forall>p\<in>set [width_option]. recognized (type p) \<and> choices_present p)
      \<and> \<not> recognized (type bad_type_option)"
    using ok by (simp add: recognized_def bad_type_option_def plain_option_def str_def)
  note t1 = schema_construction_throws [where vn = echo_engine and optionInfos = "[width_option]"
      and cli = "JBool True"]
  note t2 = schema_construction_throws [where vn = echo_engine
      and optionInfos = "[width_option, bad_type_option]" and pre = "[width_option]"
      and d = bad_type_option and post = "[]" and other = plain_other and options = "[]"
      and opts = None]
  have "(\<exists>schemas. optionInfosToSchemas (construct echo_engine) [width_option] (JBool True)
         = Inr schemas)
      \<or> (\<exists>e s. optionInfosToSchemas (construct echo_engine) [width_option] (JBool True) = Inl e
             \<and> construct echo_engine s = Some e)"
    by (rule t1 [THEN conjunct1, THEN mp, OF ok])
  then have first: "\<exists>schemas. optionInfosToSchemas (construct echo_engine) [width_option]
      (JBool True) = Inr schemas"
    by (simp add: quiet)
  have "\<exists>e. normalizeOptions echo_engine plain_other [] [width_option, bad_type_option] None
          = Inl e
        \<and> (e = Error (str ''Unexpected type '' @ type_text bad_type_option)
             \<or> (\<exists>s. construct echo_engine s = Some e))"
    by (rule t2 [THEN conjunct2, THEN mp, OF bad, THEN conjunct2])
  then obtain e where
    e: "normalizeOptions echo_engine plain_other [] [width_option, bad_type_option] None = Inl e"
    and w: "e = Error (str ''Unexpected type '' @ type_text bad_type_option)
        \<or> (\<exists>s. construct echo_engine s = Some e)"
    by blast
  from w have "e = Error (str ''Unexpected type '' @ type_text bad_type_option)"
    by (simp add: quiet)
  moreover have "str ''Unexpected type '' @ type_text bad_type_option
      = str ''Unexpected type float''"
    by (simp add: type_text_def bad_type_option_def plain_option_def str_def)
  ultimately have "normalizeOptions echo_engine plain_other [] [width_option, bad_type_option] None
       = Inl (Error (str ''Unexpected type float''))"
    using e by simp
  with first show ?thesis by blast
qed

subsection \<open>Validation, redirect and array wrapping\<close>

lemma built_shape:
  assumes "optionInfoToSchema ctor d cli ds = Inr s"
  shows "\<exists>K ps.
     switch_type d cli ds \<lparr> p_name = name d, p_preprocess = None, p_choices = None,
               p_flags = None, p_validate = None \<rparr> = Inr (K, ps)
     \<and> s = (if truthy (array d)
          then ArraySchema_create (if truthy cli then Some ConcatPreprocess else None)
                 \<lparr> h_redirect = map_option redirect_handler (redirect d),
                   h_deprecated = truthy (deprecated d) \<rparr>
                 (Schema_create K (ps\<lparr>p_validate := Some (effective_validate d)\<rparr>) no_handlers)
          else Schema_create K (ps\<lparr>p_validate := Some (effective_validate d)\<rparr>)
                 \<lparr> h_redirect = map_option redirect_handler (redirect d),
                   h_deprecated = truthy (deprecated d) \<rparr>)"
proof (cases "switch_type d cli ds \<lparr> p_name = name d, p_preprocess = None, p_choices = None,
               p_flags = None, p_validate = None \<rparr>")
  case (Inl e)
  with assms show ?thesis by (simp add: optionInfoToSchema_def)
next
  case (Inr kp)
  obtain K ps where kp: "kp = (K, ps)" by (cases kp)
  show ?thesis
  proof (cases "truthy (array d)")
    case False
    with assms Inr kp have "create ctor (Schema_create K
        (ps\<lparr>p_validate := Some (effective_validate d)\<rparr>)
        \<lparr> h_redirect = map_option redirect_handler (redirect d),
          h_deprecated = truthy (deprecated d) \<rparr>) = Inr s"
      by (simp add: optionInfoToSchema_def Let_def)
    then have "s = Schema_create K (ps\<lparr>p_validate := Some (effective_validate d)\<rparr>)
        \<lparr> h_redirect = map_option redirect_handler (redirect d),
          h_deprecated = truthy (deprecated d) \<rparr>"
      by (rule create_result)
    with False Inr kp show ?thesis by simp
  next
    case True
    show ?thesis
    proof (cases "create ctor (Schema_create K
        (ps\<lparr>p_validate := Some (effective_validate d)\<rparr>) no_handlers)")
      case (Inl e)
      with assms \<open>switch_type d cli ds _ = Inr kp\<close> kp True show ?thesis
        by (simp add: optionInfoToSchema_def Let_def)
    next
      case inner: (Inr vs)
      then have vs: "vs = Schema_create K (ps\<lparr>p_validate := Some (effective_validate d)\<rparr>)
          no_handlers"
        by (rule create_result)
      from assms \<open>switch_type d cli ds _ = Inr kp\<close> kp True inner
      have "create ctor (ArraySchema_create
          (if truthy cli then Some ConcatPreprocess else None)
          \<lparr> h_redirect = map_option redirect_handler (redirect d),
            h_deprecated = truthy (deprecated d) \<rparr> vs) = Inr s"
        by (simp add: optionInfoToSchema_def Let_def)
      then have "s = ArraySchema_create
          (if truthy cli then Some ConcatPreprocess else None)
          \<lparr> h_redirect = map_option redirect_handler (redirect d),
            h_deprecated = truthy (deprecated d) \<rparr> vs"
        by (rule create_result)
      with vs True \<open>switch_type d cli ds _ = Inr kp\<close> kp show ?thesis by simp
    qed
  qed
qed

lemma built_validate:
  assumes "optionInfoToSchema ctor d cli ds = Inr s"
  shows "own_validate (value_level s) = Some (effective_validate d)"
proof -
  from built_shape [OF assms] obtain K ps where
    "s = (if truthy (array d)
          then ArraySchema_create (if truthy cli then Some ConcatPreprocess else None)
                 \<lparr> h_redirect = map_option redirect_handler (redirect d),
                   h_deprecated = truthy (deprecated d) \<rparr>
                 (Schema_create K (ps\<lparr>p_validate := Some (effective_validate d)\<rparr>) no_handlers)
          else Schema_create K (ps\<lparr>p_validate := Some (effective_validate d)\<rparr>)
                 \<lparr> h_redirect = map_option redirect_handler (redirect d),
                   h_deprecated = truthy (deprecated d) \<rparr>)"
    by (elim exE conjE)
  then show ?thesis by simp
qed

lemma built_redirect:
  assumes "optionInfoToSchema ctor d cli ds = Inr s"
  shows "own_redirect s = map_option redirect_handler (redirect d)"
proof -
  from built_shape [OF assms] obtain K ps where
    "s = (if truthy (array d)
          then ArraySchema_create (if truthy cli then Some ConcatPreprocess else None)
                 \<lparr> h_redirect = map_option redirect_handler (redirect d),
                   h_deprecated = truthy (deprecated d) \<rparr>
                 (Schema_create K (ps\<lparr>p_validate := Some (effective_validate d)\<rparr>) no_handlers)
          else Schema_create K (ps\<lparr>p_validate := Some (effective_validate d)\<rparr>)
                 \<lparr> h_redirect = map_option redirect_handler (redirect d),
                   h_deprecated = truthy (deprecated d) \<rparr>)"
    by (elim exE conjE)
  then show ?thesis by simp
qed

text \<open>
  C5. For every descriptor whose schema is built and every value: if the descriptor
  declares an \<open>exception\<close> predicate, the effective validator accepts the value (returns a
  truthy result) exactly when the predicate returns truthy on it or the schema's normal
  validation accepts it; if it declares none, the effective validator accepts undefined
  unconditionally and otherwise returns what the normal validation returns.
\<close>

theorem effective_validator:
  assumes "optionInfoToSchema ctor d cli ds = Inr s"
  shows "\<exists>vd. own_validate (value_level s) = Some vd
     \<and> (\<forall>f. exception d = Some f \<longrightarrow>
           (\<forall>v base. truthy (vd v base) \<longleftrightarrow> truthy (f v) \<or> truthy (base v)))
     \<and> (exception d = None \<longrightarrow>
           (\<forall>base. vd JUndefined base = JBool True)
           \<and> (\<forall>v base. v \<noteq> JUndefined \<longrightarrow> vd v base = base v))"
proof -
  have "\<forall>f. exception d = Some f \<longrightarrow>
      (\<forall>v base. truthy (effective_validate d v base) \<longleftrightarrow> truthy (f v) \<or> truthy (base v))"
    by (simp add: effective_validate_def)
  moreover have "exception d = None \<longrightarrow>
      (\<forall>base. effective_validate d JUndefined base = JBool True)
      \<and> (\<forall>v base. v \<noteq> JUndefined \<longrightarrow> effective_validate d v base = base v)"
    by (simp add: effective_validate_def)
  ultimately show ?thesis
    using built_validate [OF assms] by simp
qed

theorem effective_validator_witness:
  "\<exists>s vd. optionInfoToSchema reject_duplicates special_choice (JBool False) [special_choice]
        = Inr s
     \<and> own_validate (value_level s) = Some vd
     \<and> truthy (vd (JStr (str ''special'')) accept_nothing)
     \<and> \<not> truthy (vd (JStr (str ''other'')) accept_nothing)"
proof -
  obtain s where s: "optionInfoToSchema reject_duplicates special_choice (JBool False)
      [special_choice] = Inr s"
    by (simp add: special_choice_def plain_option_def optionInfoToSchema_def switch_type_def
        create_def choice_value_def str_def)
  have e: "exception special_choice = Some is_special"
    by (simp add: special_choice_def)
  from effective_validator [OF s] e obtain vd where
    vd: "own_validate (value_level s) = Some vd"
    and acc: "\<forall>v base. truthy (vd v base) \<longleftrightarrow> truthy (is_special v) \<or> truthy (base v)"
    by blast
  have "truthy (vd (JStr (str ''special'')) accept_nothing)"
    using acc by (simp add: is_special_def)
  moreover have "\<not> truthy (vd (JStr (str ''other'')) accept_nothing)"
    using acc by (simp add: is_special_def accept_nothing_def str_def)
  ultimately show ?thesis using s vd by blast
qed

text \<open>
  C7. For every descriptor that declares a \<open>redirect\<close> and whose schema is built, the
  redirect handler attached to the schema returns undefined for every falsy value and
  \<open>{to: {key: redirect.option, value: redirect.value}}\<close> for every truthy value.
\<close>

theorem redirect_handler_result:
  assumes "optionInfoToSchema ctor d cli ds = Inr s" and "redirect d = Some r"
  shows "\<exists>h. own_redirect s = Some h
     \<and> (\<forall>v. \<not> truthy v \<longrightarrow> h v = JUndefined)
     \<and> (\<forall>v. truthy v \<longrightarrow>
           h v = JObj [(str ''to'',
                   JObj [(str ''key'', redirect_option r), (str ''value'', redirect_value r)])])"
  using built_redirect [OF assms(1)] assms(2) by (simp add: redirect_handler_def)

theorem redirect_handler_result_witness:
  "\<exists>s h. optionInfoToSchema reject_duplicates old_paths (JBool True) [old_paths] = Inr s
     \<and> own_redirect s = Some h
     \<and> h (JStr []) = JUndefined
     \<and> h (JArr []) = JObj [(str ''to'',
                   JObj [(str ''key'', JStr (str ''input'')), (str ''value'', JBool True)])]"
proof -
  obtain s where s: "optionInfoToSchema reject_duplicates old_paths (JBool True) [old_paths]
      = Inr s"
    by (simp add: old_paths_def plain_option_def optionInfoToSchema_def switch_type_def
        create_def str_def)
  have r: "redirect old_paths
      = Some \<lparr> redirect_option = JStr (str ''input''), redirect_value = JBool True \<rparr>"
    by (simp add: old_paths_def)
  from redirect_handler_result [OF s r] obtain h where
    h: "own_redirect s = Some h"
    and falsy: "\<forall>v. \<not> truthy v \<longrightarrow> h v = JUndefined"
    and truthy: "\<forall>v. truthy v \<longrightarrow> h v = JObj [(str ''to'',
                   JObj [(str ''key'', JStr (str ''input'')), (str ''value'', JBool True)])]"
    by auto
  have "h (JStr []) = JUndefined" using falsy by simp
  moreover have "h (JArr []) = JObj [(str ''to'',
                   JObj [(str ''key'', JStr (str ''input'')), (str ''value'', JBool True)])]"
    using truthy by simp
  ultimately show ?thesis using s h by blast
qed

text \<open>
  C10. For every descriptor with \<open>array\<close> set whose schema is built, the result is an
  array schema around an element schema: the redirect handler and the deprecation mark are
  on the array schema, which has no validator of its own; the element schema has the
  effective validator and neither redirect nor deprecation. So the rule that undefined is
  always valid holds for each element, and redirect and deprecation for the array value.
\<close>

theorem array_handlers_placement:
  assumes "optionInfoToSchema ctor d cli ds = Inr s" and "truthy (array d)"
  shows "\<exists>vs. valueSchema s = Some vs
     \<and> own_redirect s = map_option redirect_handler (redirect d)
     \<and> own_deprecated s = truthy (deprecated d)
     \<and> own_validate s = None
     \<and> own_redirect vs = None
     \<and> \<not> own_deprecated vs
     \<and> own_validate vs = Some (effective_validate d)
     \<and> (exception d = None \<longrightarrow> (\<forall>base. effective_validate d JUndefined base = JBool True))"
proof -
  from built_shape [OF assms(1)] assms(2) obtain K ps where
    "s = ArraySchema_create (if truthy cli then Some ConcatPreprocess else None)
                 \<lparr> h_redirect = map_option redirect_handler (redirect d),
                   h_deprecated = truthy (deprecated d) \<rparr>
                 (Schema_create K (ps\<lparr>p_validate := Some (effective_validate d)\<rparr>) no_handlers)"
    by auto
  then show ?thesis by (simp add: no_handlers_def effective_validate_def)
qed

theorem array_handlers_placement_witness:
  "\<exists>s vs h vd. optionInfoToSchema reject_duplicates old_paths (JBool True) [old_paths] = Inr s
     \<and> valueSchema s = Some vs
     \<and> own_redirect s = Some h \<and> own_deprecated s \<and> own_validate s = None
     \<and> own_redirect vs = None \<and> \<not> own_deprecated vs
     \<and> own_validate vs = Some vd \<and> vd JUndefined accept_nothing = JBool True"
proof -
  obtain s where s: "optionInfoToSchema reject_duplicates old_paths (JBool True) [old_paths]
      = Inr s"
    by (simp add: old_paths_def plain_option_def optionInfoToSchema_def switch_type_def
        create_def str_def)
  have a: "truthy (array old_paths)" by (simp add: old_paths_def)
  have facts: "redirect old_paths \<noteq> None \<and> truthy (deprecated old_paths)
      \<and> exception old_paths = None"
    by (simp add: old_paths_def plain_option_def)
  from array_handlers_placement [OF s a] facts show ?thesis
    using s by auto
qed

subsection \<open>Flag universe\<close>

lemma foldl_append_concat: "foldl (\<lambda>a b. a @ b) acc xss = acc @ concat xss"
  by (induction xss arbitrary: acc) simp_all

lemma flag_universe_concat: "flag_universe ds = concat (map flag_names ds)"
  by (induction ds) (simp_all add: flag_names_def declared_def split: option.splits)

lemma collect_flags_universe: "collect_flags ds = flag_universe ds"
  by (simp add: collect_flags_def foldl_append_concat flag_universe_concat)

lemma built_flags:
  assumes "optionInfoToSchema ctor d cli ds = Inr s"
    and "flag_schema_for n (value_level s)"
  shows "own_flags (value_level s) = Some (flag_universe ds)"
proof -
  from built_shape [OF assms(1)] obtain K ps where
    sw: "switch_type d cli ds \<lparr> p_name = name d, p_preprocess = None, p_choices = None,
               p_flags = None, p_validate = None \<rparr> = Inr (K, ps)"
    and vl: "value_level s
        = Schema_create K (ps\<lparr>p_validate := Some (effective_validate d)\<rparr>)
            (if truthy (array d) then no_handlers
             else \<lparr> h_redirect = map_option redirect_handler (redirect d),
                    h_deprecated = truthy (deprecated d) \<rparr>)"
    by (auto split: if_splits)
  from assms(2) vl have "K = FlagSchema" by simp
  with sw have sw': "switch_type d cli ds \<lparr> p_name = name d, p_preprocess = None,
      p_choices = None, p_flags = None, p_validate = None \<rparr> = Inr (FlagSchema, ps)"
    by simp
  have "ps = \<lparr> p_name = name d, p_preprocess = None, p_choices = None,
               p_flags = None, p_validate = None \<rparr>\<lparr>p_flags := Some (collect_flags ds)\<rparr>"
    using switch_type_flag [OF sw'] by simp
  with vl show ?thesis by (simp add: collect_flags_universe)
qed

lemma built_for_flag:
  assumes "optionInfoToSchema ctor d cli ds = Inr s" and "type d = Some (str ''flag'')"
  shows "flag_schema_for (name d) (value_level s)"
proof -
  from built_shape [OF assms(1)] obtain K ps where
    sw: "switch_type d cli ds \<lparr> p_name = name d, p_preprocess = None, p_choices = None,
               p_flags = None, p_validate = None \<rparr> = Inr (K, ps)"
    and vl: "value_level s
        = Schema_create K (ps\<lparr>p_validate := Some (effective_validate d)\<rparr>)
            (if truthy (array d) then no_handlers
             else \<lparr> h_redirect = map_option redirect_handler (redirect d),
                    h_deprecated = truthy (deprecated d) \<rparr>)"
    by (auto split: if_splits)
  from sw assms(2) have "K = FlagSchema \<and> p_name ps = name d"
    by (auto simp: switch_type_of_flag)
  with vl show ?thesis by simp
qed

lemma push_step:
  assumes "push_schemas ctor (d # ds) cli optionInfos acc = Inr schemas"
  shows "\<exists>s extra. optionInfoToSchema ctor d cli optionInfos = Inr s
     \<and> push_schemas ctor ds cli optionInfos (acc @ s # extra) = Inr schemas
     \<and> (\<forall>x\<in>set extra. \<exists>a n. x = AliasSchema_create a n)"
proof (cases "optionInfoToSchema ctor d cli optionInfos")
  case (Inl e)
  with assms show ?thesis by simp
next
  case (Inr s)
  show ?thesis
  proof (cases "\<exists>a. alias' d = Some a \<and> truthy (JStr a) \<and> truthy cli")
    case False
    with Inr assms have "push_schemas ctor ds cli optionInfos (acc @ s # []) = Inr schemas"
      by (auto split: option.splits if_splits)
    with Inr show ?thesis by (intro exI [of _ s] exI [of _ "[]"]) simp
  next
    case True
    then obtain a where a: "alias' d = Some a" "truthy (JStr a)" "truthy cli" by blast
    show ?thesis
    proof (cases "create ctor (AliasSchema_create a (name d))")
      case (Inl e)
      with Inr a assms show ?thesis by simp
    next
      case al: (Inr al)
      then have eq: "al = AliasSchema_create a (name d)" by (rule create_result)
      from Inr a al assms
      have "push_schemas ctor ds cli optionInfos (acc @ s # [al]) = Inr schemas" by simp
      with Inr eq show ?thesis by (intro exI [of _ s] exI [of _ "[al]"]) simp
    qed
  qed
qed

lemma push_schemas_flags:
  "push_schemas ctor ds cli optionInfos acc = Inr schemas \<Longrightarrow>
   \<forall>s\<in>set acc. \<forall>n. flag_schema_for n (value_level s) \<longrightarrow>
       own_flags (value_level s) = Some (flag_universe optionInfos) \<Longrightarrow>
   \<forall>s\<in>set schemas. \<forall>n. flag_schema_for n (value_level s) \<longrightarrow>
       own_flags (value_level s) = Some (flag_universe optionInfos)"
proof (induction ds arbitrary: acc)
  case Nil
  then show ?case by simp
next
  case (Cons d ds)
  from push_step [OF Cons.prems(1)] obtain s extra where
    s: "optionInfoToSchema ctor d cli optionInfos = Inr s"
    and rest: "push_schemas ctor ds cli optionInfos (acc @ s # extra) = Inr schemas"
    and extra: "\<forall>x\<in>set extra. \<exists>a n. x = AliasSchema_create a n"
    by (elim exE conjE)
  have new: "\<forall>n. flag_schema_for n (value_level s) \<longrightarrow>
       own_flags (value_level s) = Some (flag_universe optionInfos)"
    using built_flags [OF s] by simp
  have none: "\<forall>x\<in>set extra. \<forall>n. \<not> flag_schema_for n (value_level x)"
    using extra by auto
  have "\<forall>x\<in>set (acc @ s # extra). \<forall>n. flag_schema_for n (value_level x) \<longrightarrow>
       own_flags (value_level x) = Some (flag_universe optionInfos)"
    using Cons.prems(2) new none by auto
  with rest show ?case by (rule Cons.IH)
qed

lemma push_schemas_keeps:
  "push_schemas ctor ds cli optionInfos acc = Inr schemas \<Longrightarrow> set acc \<subseteq> set schemas"
proof (induction ds arbitrary: acc)
  case Nil
  then show ?case by simp
next
  case (Cons d ds)
  from push_step [OF Cons.prems] obtain s extra where
    "push_schemas ctor ds cli optionInfos (acc @ s # extra) = Inr schemas"
    by (elim exE conjE)
  then have "set (acc @ s # extra) \<subseteq> set schemas" by (rule Cons.IH)
  then show ?case by simp
qed

lemma push_schemas_has_flag:
  "push_schemas ctor ds cli optionInfos acc = Inr schemas \<Longrightarrow> d \<in> set ds \<Longrightarrow>
   type d = Some (str ''flag'') \<Longrightarrow>
   \<exists>s\<in>set schemas. flag_schema_for (name d) (value_level s)"
proof (induction ds arbitrary: acc)
  case Nil
  then show ?case by simp
next
  case (Cons x xs)
  from push_step [OF Cons.prems(1)] obtain s extra where
    s: "optionInfoToSchema ctor x cli optionInfos = Inr s"
    and rest: "push_schemas ctor xs cli optionInfos (acc @ s # extra) = Inr schemas"
    by (elim exE conjE)
  show ?case
  proof (cases "d = x")
    case True
    with s Cons.prems(3) have "flag_schema_for (name d) (value_level s)"
      using built_for_flag [of ctor x cli optionInfos s] by simp
    moreover have "s \<in> set schemas"
      using push_schemas_keeps [OF rest] by auto
    ultimately show ?thesis by (rule bexI)
  next
    case False
    with Cons.prems(2) have "d \<in> set xs" by simp
    with rest show ?thesis using Cons.prems(3) by (rule Cons.IH)
  qed
qed

lemma optionInfosToSchemas_push:
  assumes "optionInfosToSchemas ctor optionInfos cli = Inr schemas"
  shows "\<exists>acc. push_schemas ctor optionInfos cli optionInfos acc = Inr schemas
     \<and> (\<forall>x\<in>set acc. \<exists>n. x = AnySchema_create n)"
proof (cases "truthy cli")
  case False
  with assms have "push_schemas ctor optionInfos cli optionInfos [] = Inr schemas"
    by (simp add: optionInfosToSchemas_def)
  then show ?thesis by (intro exI [of _ "[]"]) simp
next
  case True
  show ?thesis
  proof (cases "create ctor (AnySchema_create (str ''_''))")
    case (Inl e)
    with assms True show ?thesis by (simp add: optionInfosToSchemas_def)
  next
    case (Inr r)
    then have "r = AnySchema_create (str ''_'')" by (rule create_result)
    moreover from assms True Inr
    have "push_schemas ctor optionInfos cli optionInfos [r] = Inr schemas"
      by (simp add: optionInfosToSchemas_def)
    ultimately show ?thesis by (intro exI [of _ "[r]"]) simp
  qed
qed

text \<open>
  C6. For every descriptor list whose schemas are built and every descriptor of the flag
  type in it, the schemas contain the flag schema of that descriptor, and every flag schema
  among them is given, as its flag universe, the concatenation over the descriptors of the
  full list in order of: the alias when there is one, the name when a description is
  declared, and \<open>no-name\<close> when an opposite description is declared. A property counts as
  present or declared when it is truthy, as the source tests it.
\<close>

theorem flag_universe_handed_over:
  assumes "optionInfosToSchemas ctor optionInfos cli = Inr schemas"
  shows "(\<forall>d\<in>set optionInfos. type d = Some (str ''flag'') \<longrightarrow>
            (\<exists>s\<in>set schemas. flag_schema_for (name d) (value_level s)
                \<and> own_flags (value_level s) = Some (flag_universe optionInfos)))
       \<and> (\<forall>s\<in>set schemas. \<forall>n. flag_schema_for n (value_level s) \<longrightarrow>
            own_flags (value_level s) = Some (flag_universe optionInfos))"
proof -
  from optionInfosToSchemas_push [OF assms] obtain acc where
    push: "push_schemas ctor optionInfos cli optionInfos acc = Inr schemas"
    and any: "\<forall>x\<in>set acc. \<exists>n. x = AnySchema_create n"
    by (elim exE conjE)
  have "\<forall>s\<in>set acc. \<forall>n. flag_schema_for n (value_level s) \<longrightarrow>
       own_flags (value_level s) = Some (flag_universe optionInfos)"
    using any by auto
  with push have all: "\<forall>s\<in>set schemas. \<forall>n. flag_schema_for n (value_level s) \<longrightarrow>
       own_flags (value_level s) = Some (flag_universe optionInfos)"
    by (rule push_schemas_flags)
  have "\<exists>s\<in>set schemas. flag_schema_for (name d) (value_level s)
                \<and> own_flags (value_level s) = Some (flag_universe optionInfos)"
    if "d \<in> set optionInfos" and "type d = Some (str ''flag'')" for d
  proof -
    from push that obtain s where
      "s \<in> set schemas" and "flag_schema_for (name d) (value_level s)"
      using push_schemas_has_flag [of ctor optionInfos cli optionInfos acc schemas d] by auto
    with all show ?thesis by auto
  qed
  with all show ?thesis by simp
qed

theorem flag_universe_handed_over_witness:
  "\<exists>schemas s. optionInfosToSchemas reject_duplicates [help_flag, color_option] (JBool True)
        = Inr schemas
     \<and> s \<in> set schemas \<and> flag_schema_for (str ''help'') (value_level s)
     \<and> own_flags (value_level s)
         = Some [str ''h'', str ''help'', str ''color'', str ''no-color'']"
proof -
  obtain schemas where b: "optionInfosToSchemas reject_duplicates [help_flag, color_option]
      (JBool True) = Inr schemas"
    by (simp add: optionInfosToSchemas_def optionInfoToSchema_def switch_type_def create_def
        FlagSchema_constructor_def collect_flags_def flag_names_def declared_def
        choice_value_def help_flag_def color_option_def plain_option_def str_def)
  have t: "help_flag \<in> set [help_flag, color_option] \<and> type help_flag = Some (str ''flag'')
      \<and> name help_flag = str ''help''"
    by (simp add: help_flag_def plain_option_def)
  have u: "flag_universe [help_flag, color_option]
      = [str ''h'', str ''help'', str ''color'', str ''no-color'']"
    by (simp add: help_flag_def color_option_def plain_option_def str_def)
  from flag_universe_handed_over [OF b] t obtain s where
    "s \<in> set schemas" and "flag_schema_for (str ''help'') (value_level s)"
    and "own_flags (value_level s) = Some (flag_universe [help_flag, color_option])"
    by auto
  with b u show ?thesis by auto
qed

subsection \<open>Normalizer\<close>

lemma default_false_truthy: "truthy (default_false p) = truthy (property p)"
  by (simp add: default_false_def property_def split: option.splits)

lemma default_false_array: "default_false p = JArr xs \<longleftrightarrow> property p = JArr xs"
  by (auto simp: default_false_def property_def split: option.splits)

lemma unknown_handler_of_falsy: "\<not> truthy pt \<Longrightarrow> unknown_handler_of pt = LevenUnknownHandler"
  by (simp add: unknown_handler_of_def)

lemma unknown_handler_of_list:
  "unknown_handler_of (JArr names)
     = UnknownHandler (\<lambda>k v. if JStr k \<notin> set names then JUndefined else JObj [(k, v)])"
  by (simp add: unknown_handler_of_def indexOf_absent)

lemma unknown_handler_of_other:
  "truthy pt \<Longrightarrow> \<forall>xs. pt \<noteq> JArr xs \<Longrightarrow> unknown_handler_of pt = UnknownHandler (\<lambda>k v. JObj [(k, v)])"
  by (cases pt) (simp_all add: unknown_handler_of_def)

text \<open>
  C3. Once the schemas are built, \<open>normalizeOptions\<close> calls the engine's \<open>normalize\<close> with
  an unknown-key handler chosen from \<open>opts.passThrough\<close>: when \<open>passThrough\<close> is falsy it
  is the engine's built-in nearest-match handler; when \<open>passThrough\<close> is a list of names,
  an unknown key in the list is passed through as \<open>{key: value}\<close> and one not in the list
  yields undefined; when \<open>passThrough\<close> is any other truthy value, every unknown key is
  passed through as \<open>{key: value}\<close>.
\<close>

theorem unknown_key_policy:
  assumes "optionInfosToSchemas (construct vn) optionInfos (default_false (isCLI s))
      = Inr schemas"
  shows "\<exists>u. normalizeOptions vn other options optionInfos (Some s)
       = Inr (normalize vn options schemas
           \<lparr> n_logger = logger s, n_unknown = u,
             n_descriptor = (if truthy (default_false (isCLI s))
                             then cliDescriptor (apiDescriptor vn) other
                             else apiDescriptor vn) \<rparr>)
     \<and> (\<not> truthy (property (passThrough s)) \<longrightarrow> u = LevenUnknownHandler)
     \<and> (\<forall>names. property (passThrough s) = JArr names \<longrightarrow>
          (\<exists>h. u = UnknownHandler h
             \<and> (\<forall>k v. (JStr k \<in> set names \<longrightarrow> h k v = JObj [(k, v)])
                    \<and> (JStr k \<notin> set names \<longrightarrow> h k v = JUndefined))))
     \<and> (truthy (property (passThrough s)) \<and> (\<forall>xs. property (passThrough s) \<noteq> JArr xs) \<longrightarrow>
          (\<exists>h. u = UnknownHandler h \<and> (\<forall>k v. h k v = JObj [(k, v)])))"
proof (intro exI [of _ "unknown_handler_of (default_false (passThrough s))"] conjI impI allI)
  show "normalizeOptions vn other options optionInfos (Some s)
       = Inr (normalize vn options schemas
           \<lparr> n_logger = logger s,
             n_unknown = unknown_handler_of (default_false (passThrough s)),
             n_descriptor = (if truthy (default_false (isCLI s))
                             then cliDescriptor (apiDescriptor vn) other
                             else apiDescriptor vn) \<rparr>)"
    using assms by (simp add: normalizeOptions_def Let_def)
next
  assume "\<not> truthy (property (passThrough s))"
  then have "\<not> truthy (default_false (passThrough s))" by (simp add: default_false_truthy)
  then show "unknown_handler_of (default_false (passThrough s)) = LevenUnknownHandler"
    by (rule unknown_handler_of_falsy)
next
  fix names
  assume "property (passThrough s) = JArr names"
  then have "default_false (passThrough s) = JArr names" by (simp add: default_false_array)
  then show "\<exists>h. unknown_handler_of (default_false (passThrough s)) = UnknownHandler h
             \<and> (\<forall>k v. (JStr k \<in> set names \<longrightarrow> h k v = JObj [(k, v)])
                    \<and> (JStr k \<notin> set names \<longrightarrow> h k v = JUndefined))"
    by (simp add: unknown_handler_of_list)
next
  assume a: "truthy (property (passThrough s)) \<and> (\<forall>xs. property (passThrough s) \<noteq> JArr xs)"
  then have "truthy (default_false (passThrough s))" by (simp add: default_false_truthy)
  moreover from a have "\<forall>xs. default_false (passThrough s) \<noteq> JArr xs"
    by (simp add: default_false_array)
  ultimately have "unknown_handler_of (default_false (passThrough s))
      = UnknownHandler (\<lambda>k v. JObj [(k, v)])"
    by (rule unknown_handler_of_other)
  then show "\<exists>h. unknown_handler_of (default_false (passThrough s)) = UnknownHandler h
      \<and> (\<forall>k v. h k v = JObj [(k, v)])"
    by simp
qed

theorem unknown_key_policy_witness:
  "\<exists>r h. normalizeOptions echo_engine plain_other [] [] (Some pass_foo) = Inr r
     \<and> n_unknown r = UnknownHandler h
     \<and> h (str ''foo'') (JBool True) = JObj [(str ''foo'', JBool True)]
     \<and> h (str ''bar'') (JBool True) = JUndefined"
proof -
  have b: "optionInfosToSchemas (construct echo_engine) [] (default_false (isCLI pass_foo))
      = Inr []"
    by (simp add: optionInfosToSchemas_def pass_foo_def default_false_def)
  have p: "property (passThrough pass_foo) = JArr [JStr (str ''foo'')]"
    by (simp add: pass_foo_def property_def)
  from unknown_key_policy [OF b, of plain_other "[]"] obtain u where
    r: "normalizeOptions echo_engine plain_other [] [] (Some pass_foo)
       = Inr (normalize echo_engine [] []
           \<lparr> n_logger = logger pass_foo, n_unknown = u,
             n_descriptor = (if truthy (default_false (isCLI pass_foo))
                             then cliDescriptor (apiDescriptor echo_engine) plain_other
                             else apiDescriptor echo_engine) \<rparr>)"
    and l: "\<forall>names. property (passThrough pass_foo) = JArr names \<longrightarrow>
          (\<exists>h. u = UnknownHandler h
             \<and> (\<forall>k v. (JStr k \<in> set names \<longrightarrow> h k v = JObj [(k, v)])
                    \<and> (JStr k \<notin> set names \<longrightarrow> h k v = JUndefined)))"
    by (elim exE conjE)
  from l p obtain h where h: "u = UnknownHandler h"
    and hin: "\<forall>k v. (JStr k \<in> set [JStr (str ''foo'')] \<longrightarrow> h k v = JObj [(k, v)])
                    \<and> (JStr k \<notin> set [JStr (str ''foo'')] \<longrightarrow> h k v = JUndefined)"
    by blast
  have f: "h (str ''foo'') (JBool True) = JObj [(str ''foo'', JBool True)]"
    using hin by simp
  have g: "h (str ''bar'') (JBool True) = JUndefined"
    using hin by (simp add: str_def)
  from r h have "n_unknown (normalize echo_engine [] []
           \<lparr> n_logger = logger pass_foo, n_unknown = u,
             n_descriptor = (if truthy (default_false (isCLI pass_foo))
                             then cliDescriptor (apiDescriptor echo_engine) plain_other
                             else apiDescriptor echo_engine) \<rparr>) = UnknownHandler h"
    by (simp add: echo_engine_def)
  with r f g show ?thesis by (intro exI conjI)
qed

text \<open>
  C4, as the claim states it, fails when \<open>opts\<close> itself sets \<open>isCLI\<close>:
  \<open>normalizeApiOptions\<close> passes \<open>opts\<close> on untouched, and in \<open>normalizeCliOptions\<close> the
  \<open>isCLI: true\<close> of \<open>Object.assign({ isCLI: true }, opts)\<close> is a default that \<open>opts\<close>
  replaces.
\<close>

theorem entry_points_isCLI_counterexample:
  "normalizeApiOptions count_engine plain_other [] [] (Some (cli_settings (Some (JBool True))))
     \<noteq> normalizeOptions count_engine plain_other [] []
         (Some ((cli_settings (Some (JBool True)))\<lparr>isCLI := Some (JBool False)\<rparr>))
   \<and> normalizeCliOptions count_engine plain_other [] [] (Some (cli_settings (Some (JBool False))))
     \<noteq> normalizeOptions count_engine plain_other [] []
         (Some ((cli_settings (Some (JBool False)))\<lparr>isCLI := Some (JBool True)\<rparr>))"
  by (simp add: normalizeApiOptions_def normalizeCliOptions_def normalizeOptions_def
      assign_isCLI_true_def cli_settings_def count_engine_def default_false_def
      optionInfosToSchemas_def create_def Let_def)

text \<open>
  C4, amended. For every options mapping, descriptor list and settings object \<open>opts\<close>
  that has no \<open>isCLI\<close> property, \<open>normalizeApiOptions\<close> equals the general normalizer with
  \<open>isCLI\<close> false and \<open>normalizeCliOptions\<close> equals the general normalizer with \<open>isCLI\<close>
  true, everything else being the same.
\<close>

theorem entry_points_fix_isCLI:
  assumes "isCLI s = None"
  shows "normalizeApiOptions vn other options optionInfos (Some s)
       = normalizeOptions vn other options optionInfos (Some (s\<lparr>isCLI := Some (JBool False)\<rparr>))
     \<and> normalizeCliOptions vn other options optionInfos (Some s)
       = normalizeOptions vn other options optionInfos (Some (s\<lparr>isCLI := Some (JBool True)\<rparr>))"
  using assms
  by (simp add: normalizeApiOptions_def normalizeCliOptions_def normalizeOptions_def
      assign_isCLI_true_def default_false_def Let_def split: sum.splits)

theorem entry_points_fix_isCLI_witness:
  "isCLI (cli_settings None) = None
   \<and> normalizeApiOptions count_engine plain_other [] [width_option] (Some (cli_settings None))
       = Inr 1
   \<and> normalizeCliOptions count_engine plain_other [] [width_option] (Some (cli_settings None))
       = Inr 3"
proof -
  have n: "isCLI (cli_settings None) = None" by (simp add: cli_settings_def)
  have api: "normalizeOptions count_engine plain_other [] [width_option]
      (Some ((cli_settings None)\<lparr>isCLI := Some (JBool False)\<rparr>)) = Inr 1"
    by (simp add: normalizeOptions_def cli_settings_def count_engine_def default_false_def
        optionInfosToSchemas_def optionInfoToSchema_def switch_type_def width_option_def
        plain_option_def create_def Let_def str_def)
  have cli: "normalizeOptions count_engine plain_other [] [width_option]
      (Some ((cli_settings None)\<lparr>isCLI := Some (JBool True)\<rparr>)) = Inr 3"
    by (simp add: normalizeOptions_def cli_settings_def count_engine_def default_false_def
        optionInfosToSchemas_def optionInfoToSchema_def switch_type_def width_option_def
        plain_option_def create_def Let_def str_def)
  from entry_points_fix_isCLI [OF n, of count_engine plain_other "[]" "[width_option]"] api cli n
  show ?thesis by simp
qed

end
